theory Spec2Isabelle
  imports Main "HOL-Library.Sublist"
begin

section \<open>Paths: the POSIX flavour of Node's path module\<close>

text \<open>
  The servers call \<^verbatim>\<open>path.join\<close>, \<^verbatim>\<open>path.resolve\<close>, \<^verbatim>\<open>path.basename\<close> and
  \<^verbatim>\<open>path.extname\<close>. They are modelled on strings, for the POSIX variant of the
  module. \<^verbatim>\<open>normalizeString\<close> walks the segments between slashes: empty segments and
  \<^verbatim>\<open>.\<close> are dropped, \<^verbatim>\<open>..\<close> removes the last kept segment, and above the start it is
  either kept (relative paths) or dropped (absolute paths).
\<close>

fun splitSlash :: "string \<Rightarrow> string list" where
  "splitSlash [] = [[]]"
| "splitSlash (c # cs) =
     (if c = CHR ''/'' then [] # splitSlash cs
      else (case splitSlash cs of [] \<Rightarrow> [[c]] | w # ws \<Rightarrow> (c # w) # ws))"

fun joinSlash :: "string list \<Rightarrow> string" where
  "joinSlash [] = []"
| "joinSlash [s] = s"
| "joinSlash (s # t # ss) = s @ CHR ''/'' # joinSlash (t # ss)"

fun normalizeSegs :: "bool \<Rightarrow> string list \<Rightarrow> string list \<Rightarrow> string list" where
  "normalizeSegs allowAboveRoot res [] = rev res"
| "normalizeSegs allowAboveRoot res (s # ss) =
     (if s = [] \<or> s = ''.'' then normalizeSegs allowAboveRoot res ss
      else if s = ''..'' then
        (case res of
           [] \<Rightarrow> normalizeSegs allowAboveRoot (if allowAboveRoot then [''..''] else []) ss
         | r # rs \<Rightarrow>
             if r = ''..''
             then normalizeSegs allowAboveRoot (if allowAboveRoot then ''..'' # res else res) ss
             else normalizeSegs allowAboveRoot rs ss)
      else normalizeSegs allowAboveRoot (s # res) ss)"

definition normalizeString :: "string \<Rightarrow> bool \<Rightarrow> string" where
  "normalizeString path allowAboveRoot =
     joinSlash (normalizeSegs allowAboveRoot [] (splitSlash path))"

definition isAbsolute :: "string \<Rightarrow> bool" where
  "isAbsolute path = (case path of [] \<Rightarrow> False | c # _ \<Rightarrow> c = CHR ''/'')"

definition trailingSeparator :: "string \<Rightarrow> bool" where
  "trailingSeparator path = (path \<noteq> [] \<and> last path = CHR ''/'')"

definition posix_normalize :: "string \<Rightarrow> string" where
  "posix_normalize path =
     (if path = [] then ''.''
      else
        let p = normalizeString path (\<not> isAbsolute path) in
        if p = [] then
          (if isAbsolute path then ''/''
           else if trailingSeparator path then ''./'' else ''.'')
        else
          let p2 = (if trailingSeparator path then p @ ''/'' else p) in
          if isAbsolute path then CHR ''/'' # p2 else p2)"

definition posix_join :: "string list \<Rightarrow> string" where
  "posix_join args =
     (let parts = filter (\<lambda>arg. arg \<noteq> []) args in
      if parts = [] then ''.'' else posix_normalize (joinSlash parts))"

text \<open>
  \<^verbatim>\<open>path.resolve\<close> goes through its arguments from the right, then the working
  directory, until the path built so far is absolute.
\<close>

fun resolveLoop :: "string list \<Rightarrow> string \<Rightarrow> string \<times> bool" where
  "resolveLoop [] resolvedPath = (resolvedPath, False)"
| "resolveLoop (p # ps) resolvedPath =
     (if p = [] then resolveLoop ps resolvedPath
      else if isAbsolute p then (p @ ''/'' @ resolvedPath, True)
      else resolveLoop ps (p @ ''/'' @ resolvedPath))"

definition posix_resolve :: "string \<Rightarrow> string list \<Rightarrow> string" where
  "posix_resolve cwd args =
     (case resolveLoop (rev args @ [cwd]) [] of
        (resolvedPath, resolvedAbsolute) \<Rightarrow>
          let np = normalizeString resolvedPath (\<not> resolvedAbsolute) in
          if resolvedAbsolute then CHR ''/'' # np
          else if np \<noteq> [] then np else ''.'')"

definition basename :: "string \<Rightarrow> string" where
  "basename path =
     (case filter (\<lambda>s. s \<noteq> []) (splitSlash path) of
        [] \<Rightarrow> []
      | s # ss \<Rightarrow> last (s # ss))"

fun lastDot :: "string \<Rightarrow> nat option" where
  "lastDot [] = None"
| "lastDot (c # cs) =
     (case lastDot cs of
        Some i \<Rightarrow> Some (Suc i)
      | None \<Rightarrow> if c = CHR ''.'' then Some 0 else None)"

definition extname :: "string \<Rightarrow> string" where
  "extname path =
     (let b = basename path in
      case lastDot b of
        None \<Rightarrow> []
      | Some i \<Rightarrow> if i = 0 \<or> b = ''..'' then [] else drop i b)"

definition toLowerCase :: "string \<Rightarrow> string" where
  "toLowerCase s =
     map (\<lambda>c. if 65 \<le> (of_char c :: nat) \<and> (of_char c :: nat) \<le> 90
               then char_of ((of_char c :: nat) + 32) else c) s"

definition startsWith :: "string \<Rightarrow> string \<Rightarrow> bool" where
  "startsWith s searchString = (take (length searchString) s = searchString)"

text \<open>The segments of a path string: what lies between its slashes.\<close>

definition segmentsOf :: "string \<Rightarrow> string list" where
  "segmentsOf path = filter (\<lambda>s. s \<noteq> []) (splitSlash path)"

text \<open>Segments that normalisation keeps as they are.\<close>

definition cleanSegs :: "string list \<Rightarrow> bool" where
  "cleanSegs ss = (\<forall>s \<in> set ss. s \<noteq> [] \<and> s \<noteq> ''.'' \<and> s \<noteq> ''..'')"

text \<open>
  A request path never climbs above its starting point: counting the segments it has
  entered so far, no \<^verbatim>\<open>..\<close> comes when the count is zero.
\<close>

fun staysInside :: "nat \<Rightarrow> string list \<Rightarrow> bool" where
  "staysInside depth [] = True"
| "staysInside depth (s # ss) =
     (if s = [] \<or> s = ''.'' then staysInside depth ss
      else if s = ''..'' then (case depth of 0 \<Rightarrow> False | Suc d \<Rightarrow> staysInside d ss)
      else staysInside (Suc depth) ss)"

section \<open>The security check of the folder, file and download endpoints\<close>

text \<open>
  Every guarded handler runs the same lines:
  \<^verbatim>\<open>
  const fullPath = path.join(ROOT_FOLDER, filePath);
  // Security check - ensure path is within ROOT_FOLDER
  const normalizedPath = path.resolve(fullPath);
  const normalizedRoot = path.resolve(ROOT_FOLDER);
  if (!normalizedPath.startsWith(normalizedRoot)) {
    return res.status(403).json({ error: 'Access denied' });
  }
  \<close>
  A reply that is not a success is a status code with its error message; on success the
  check hands \<^verbatim>\<open>fullPath\<close> to the file system calls that follow.
\<close>

type_synonym errorReply = "nat \<times> string"

definition securityCheck :: "string \<Rightarrow> string \<Rightarrow> string \<Rightarrow> errorReply + string" where
  "securityCheck cwd ROOT_FOLDER p =
     (let fullPath = posix_join [ROOT_FOLDER, p];
          normalizedPath = posix_resolve cwd [fullPath];
          normalizedRoot = posix_resolve cwd [ROOT_FOLDER]
      in if \<not> startsWith normalizedPath normalizedRoot
         then Inl (403, ''Access denied'')
         else Inr fullPath)"

section \<open>The file system seen by the enumerators\<close>

text \<open>
  A thrown \<^verbatim>\<open>Error\<close> is a value carrying its message. The directory walks see the file
  system as a finite tree: what a path names is a regular file (with its size), a
  directory that can be listed (the entries in the order \<^verbatim>\<open>readdir\<close> reports them,
  each with what it names; on POSIX that order is ascending by \<^verbatim>\<open>strcmp\<close> on the names,
  which a statement that depends on it assumes as \<open>readdirOrdered\<close>), a directory that \<^verbatim>\<open>stat\<close> sees but \<^verbatim>\<open>readdir\<close> cannot list
  (permission denied, or removed after \<^verbatim>\<open>stat\<close>), or nothing at all: an entry that was
  listed and has been removed since, or a dangling link. For the last kind the flag is
  what the directory entry of the listing said (\<^verbatim>\<open>Dirent.isDirectory()\<close>). The messages
  keep the error code only.
\<close>

datatype exn = Error (message: string)

datatype fsnode =
    FileNode nat
  | DirNode "(string \<times> fsnode) list"
  | DeniedDir
  | Gone bool

fun readdir :: "fsnode \<Rightarrow> exn + (string \<times> fsnode) list" where
  "readdir (DirNode items) = Inr items"
| "readdir (FileNode n) = Inl (Error ''ENOTDIR'')"
| "readdir DeniedDir = Inl (Error ''EACCES'')"
| "readdir (Gone d) = Inl (Error ''ENOENT'')"

text \<open>\<^verbatim>\<open>item.isDirectory()\<close> of a \<^verbatim>\<open>Dirent\<close> (\<^verbatim>\<open>readdir\<close> with \<^verbatim>\<open>withFileTypes\<close>).\<close>

fun isDirectory :: "fsnode \<Rightarrow> bool" where
  "isDirectory (DirNode items) = True"
| "isDirectory DeniedDir = True"
| "isDirectory (Gone d) = d"
| "isDirectory (FileNode n) = False"

text \<open>
  \<^verbatim>\<open>fs.stat\<close> on an entry: whether it is a directory, and its size (the size of a
  directory is never read by the callers).
\<close>

datatype nodeStats = NodeStats (stIsDirectory: bool) (stSize: nat)

fun stat :: "fsnode \<Rightarrow> exn + nodeStats" where
  "stat (FileNode n) = Inr (NodeStats False n)"
| "stat (DirNode items) = Inr (NodeStats True 0)"
| "stat DeniedDir = Inr (NodeStats True 0)"
| "stat (Gone d) = Inl (Error ''ENOENT'')"

section \<open>The folders-only walk (file_explorer_app.js and its copies)\<close>

text \<open>
  \<^verbatim>\<open>
  async function getFolderStructure(dirPath) {
    try {
      const items = await fs.readdir(dirPath, { withFileTypes: true });
      const folders = [];
      for (const item of items) {
        if (item.isDirectory()) {
          const subFolders = await getFolderStructure(path.join(dirPath, item.name));
          folders.push({ name: item.name, subFolders: subFolders });
        }
      }
      return folders;
    } catch (error) {
      return [];
    }
  }
  \<close>
  The argument of the model is what \<^verbatim>\<open>dirPath\<close> names; the recursive call is on what
  the entry names. The result is \<open>Inl\<close> when the call throws, so that the
  \<^verbatim>\<open>try\<close>/\<^verbatim>\<open>catch\<close> is a branch of the model.
\<close>

datatype folder = Folder (folderName: string) (folderSubs: "folder list")

function getFolderStructure :: "fsnode \<Rightarrow> exn + folder list"
  and folderLoop :: "(string \<times> fsnode) list \<Rightarrow> folder list \<Rightarrow> exn + folder list"
where
  "getFolderStructure dir =
     (case (case readdir dir of
              Inl e \<Rightarrow> Inl e
            | Inr items \<Rightarrow> folderLoop items []) of
        Inl error \<Rightarrow> Inr []
      | Inr folders \<Rightarrow> Inr folders)"
| "folderLoop [] folders = Inr folders"
| "folderLoop (item # rest) folders =
     (if isDirectory (snd item) then
        (case getFolderStructure (snd item) of
           Inl e \<Rightarrow> Inl e
         | Inr subFolders \<Rightarrow> folderLoop rest (folders @ [Folder (fst item) subFolders]))
      else folderLoop rest folders)"
  by pat_completeness auto
termination
proof (relation "measure (\<lambda>x. case x of
          Inl dir \<Rightarrow> 2 * size dir + 1
        | Inr (items, folders) \<Rightarrow> 2 * size_list (size_prod (\<lambda>n. 0) size) items)")
  show "wf (measure (\<lambda>x. case x of
          Inl dir \<Rightarrow> 2 * size dir + 1
        | Inr (items, folders) \<Rightarrow> 2 * size_list (size_prod (\<lambda>n. 0) size) items))"
    by simp
next
  fix dir :: fsnode and items
  assume "readdir dir = Inr items"
  then show "(Inr (items, []), Inl dir) \<in> measure (\<lambda>x. case x of
          Inl dir \<Rightarrow> 2 * size dir + 1
        | Inr (items, folders) \<Rightarrow> 2 * size_list (size_prod (\<lambda>n. 0) size) items)"
    by (cases dir) auto
next
  fix item :: "string \<times> fsnode" and rest :: "(string \<times> fsnode) list" and folders :: "folder list"
  show "(Inl (snd item), Inr (item # rest, folders)) \<in> measure (\<lambda>x. case x of
          Inl dir \<Rightarrow> 2 * size dir + 1
        | Inr (items, folders) \<Rightarrow> 2 * size_list (size_prod (\<lambda>n. 0) size) items)"
    by (cases item) auto
next
  fix item :: "string \<times> fsnode" and rest :: "(string \<times> fsnode) list" and folders :: "folder list"
    and x2 :: "folder list"
  show "(Inr (rest, folders @ [Folder (fst item) x2]), Inr (item # rest, folders)) \<in> measure (\<lambda>x. case x of
          Inl dir \<Rightarrow> 2 * size dir + 1
        | Inr (items, folders) \<Rightarrow> 2 * size_list (size_prod (\<lambda>n. 0) size) items)"
    by (cases item) auto
next
  fix item :: "string \<times> fsnode" and rest :: "(string \<times> fsnode) list" and folders :: "folder list"
  show "(Inr (rest, folders), Inr (item # rest, folders)) \<in> measure (\<lambda>x. case x of
          Inl dir \<Rightarrow> 2 * size dir + 1
        | Inr (items, folders) \<Rightarrow> 2 * size_list (size_prod (\<lambda>n. 0) size) items)"
    by (cases item) auto
qed

section \<open>The handlers of file_explorer_app.js\<close>

text \<open>
  The process-wide \<^verbatim>\<open>ROOT_FOLDER\<close> is \<^verbatim>\<open>null\<close> (\<open>None\<close>) or a string, and
  \<^verbatim>\<open>!ROOT_FOLDER\<close> holds for \<^verbatim>\<open>null\<close> and for the empty string. The handlers get the file
  system as the function from a path to what it names, and the working directory of the
  process. A handler's result is \<open>Inl\<close> of the status and message of an error reply, or
  \<open>Inr\<close> of the body sent with status 200.
\<close>

definition falsy :: "string option \<Rightarrow> bool" where
  "falsy v = (case v of None \<Rightarrow> True | Some s \<Rightarrow> s = [])"

text \<open>\<^verbatim>\<open>.replace(/\\/g, '/')\<close>\<close>

definition replaceBackslashes :: "string \<Rightarrow> string" where
  "replaceBackslashes s = map (\<lambda>c. if c = CHR 0x5C then CHR ''/'' else c) s"

datatype folderEntry = FolderEntry (entryName: string) (entryPath: string) (entrySubFolders: "folder list")

datatype fileEntry = FileEntry (fileEntryName: string) (fileEntryPath: string)

datatype listing = Structure (structFolders: "folderEntry list") (structFiles: "fileEntry list")

text \<open>
  \<^verbatim>\<open>GET /api/folders/:folderPath(*)\<close>: after the security check,
  \<^verbatim>\<open>
  const items = await fs.readdir(fullPath, { withFileTypes: true });
  const structure = { folders: [], files: [] };
  for (const item of items) {
    if (item.isDirectory()) {
      const subFolders = await getFolderStructure(path.join(fullPath, item.name));
      structure.folders.push({ name: item.name,
        path: path.join(folderPath, item.name).replace(/\\/g, '/'), subFolders: subFolders });
    } else {
      structure.files.push({ name: item.name,
        path: path.join(folderPath, item.name).replace(/\\/g, '/') });
    }
  }
  res.json(structure);
  \<close>
  and any exception becomes the reply 500.
\<close>

fun structureLoop :: "string \<Rightarrow> (string \<times> fsnode) list \<Rightarrow> listing \<Rightarrow> exn + listing" where
  "structureLoop folderPath [] s = Inr s"
| "structureLoop folderPath (item # rest) s =
     (if isDirectory (snd item) then
        (case getFolderStructure (snd item) of
           Inl e \<Rightarrow> Inl e
         | Inr subFolders \<Rightarrow>
             structureLoop folderPath rest
               (Structure
                  (structFolders s @
                     [FolderEntry (fst item)
                        (replaceBackslashes (posix_join [folderPath, fst item])) subFolders])
                  (structFiles s)))
      else
        structureLoop folderPath rest
          (Structure (structFolders s)
             (structFiles s @
                [FileEntry (fst item) (replaceBackslashes (posix_join [folderPath, fst item]))])))"

definition apiFolders ::
  "(string \<Rightarrow> fsnode) \<Rightarrow> string \<Rightarrow> string option \<Rightarrow> string \<Rightarrow> errorReply + listing" where
  "apiFolders fs cwd ROOT_FOLDER folderPath =
     (case ROOT_FOLDER of
        None \<Rightarrow> Inl (400, ''Root folder not configured'')
      | Some root \<Rightarrow>
          if root = [] then Inl (400, ''Root folder not configured'')
          else
            (case securityCheck cwd root folderPath of
               Inl denied \<Rightarrow> Inl denied
             | Inr fullPath \<Rightarrow>
                 (case (case readdir (fs fullPath) of
                          Inl e \<Rightarrow> Inl e
                        | Inr items \<Rightarrow> structureLoop folderPath items (Structure [] [])) of
                    Inl error \<Rightarrow> Inl (500, ''Unable to read directory: '' @ message error)
                  | Inr s \<Rightarrow> Inr s)))"

text \<open>
  \<^verbatim>\<open>GET /api/home-structure\<close>:
  \<^verbatim>\<open>
  try {
    if (!ROOT_FOLDER) {
      return res.status(400).json({ error: 'Root folder not configured' });
    }
    const structure = await getFolderStructure(ROOT_FOLDER);
    res.json(structure);
  } catch (error) {
    res.status(500).json({ error: 'Unable to read root directory: ' + error.message });
  }
  \<close>
\<close>

definition apiHomeStructure :: "(string \<Rightarrow> fsnode) \<Rightarrow> string option \<Rightarrow> errorReply + folder list" where
  "apiHomeStructure fs ROOT_FOLDER =
     (case ROOT_FOLDER of
        None \<Rightarrow> Inl (400, ''Root folder not configured'')
      | Some root \<Rightarrow>
          if root = [] then Inl (400, ''Root folder not configured'')
          else
            (case getFolderStructure (fs root) of
               Inl error \<Rightarrow> Inl (500, ''Unable to read root directory: '' @ message error)
             | Inr s \<Rightarrow> Inr s))"



section \<open>The depth-limited walk of folder_structure_app.js\<close>

text \<open>
  \<^verbatim>\<open>
  async function getFolderStructure(dirPath, maxDepth = 3, currentDepth = 0) {
      if (currentDepth >= maxDepth) return null;
      try {
          const items = await fs.readdir(dirPath);
          const structure = [];
          for (const item of items) {
              // Skip hidden files and common system folders
              if (item.startsWith('.') || ['node_modules', '.git', 'dist', 'build'].includes(item)) {
                  continue;
              }
              const itemPath = path.join(dirPath, item);
              const stat = await fs.stat(itemPath);
              if (stat.isDirectory()) {
                  const children = await getFolderStructure(itemPath, maxDepth, currentDepth + 1);
                  structure.push({ name: item, type: 'folder', path: itemPath, children: children || [] });
              } else {
                  structure.push({ name: item, type: 'file', path: itemPath, size: stat.size });
              }
          }
          return structure.sort((a, b) => {
              // Folders first, then files
              if (a.type !== b.type) {
                  return a.type === 'folder' ? -1 : 1;
              }
              return a.name.localeCompare(b.name);
          });
      } catch (error) {
          console.error('Error reading directory:', error);
          return null;
      }
  }
  \<close>
  \<^verbatim>\<open>null\<close> is \<open>None\<close>. \<^verbatim>\<open>String.prototype.localeCompare\<close> depends on the locale of the
  host and is a parameter \<open>lc\<close>: negative, zero or positive. \<^verbatim>\<open>Array.prototype.sort\<close> is
  stable; it is modelled by insertion into the sorted rest, before the first element that
  does not come first.
\<close>

datatype itemType = folderType | fileType

datatype item =
    FolderItem string string "item list"
  | FileItem string string nat

fun itemName :: "item \<Rightarrow> string" where
  "itemName (FolderItem name path children) = name"
| "itemName (FileItem name path sz) = name"

fun itemTypeOf :: "item \<Rightarrow> itemType" where
  "itemTypeOf (FolderItem name path children) = folderType"
| "itemTypeOf (FileItem name path sz) = fileType"

definition compareItems :: "(string \<Rightarrow> string \<Rightarrow> int) \<Rightarrow> item \<Rightarrow> item \<Rightarrow> int" where
  "compareItems lc a b =
     (if itemTypeOf a \<noteq> itemTypeOf b
      then (if itemTypeOf a = folderType then - 1 else 1)
      else lc (itemName a) (itemName b))"

fun insertBy :: "('a \<Rightarrow> 'a \<Rightarrow> int) \<Rightarrow> 'a \<Rightarrow> 'a list \<Rightarrow> 'a list" where
  "insertBy cmp x [] = [x]"
| "insertBy cmp x (y # ys) = (if cmp x y \<le> 0 then x # y # ys else y # insertBy cmp x ys)"

definition js_sort :: "('a \<Rightarrow> 'a \<Rightarrow> int) \<Rightarrow> 'a list \<Rightarrow> 'a list" where
  "js_sort cmp xs = foldr (insertBy cmp) xs []"

definition skipped :: "string \<Rightarrow> bool" where
  "skipped item =
     (startsWith item ''.'' \<or> item \<in> set [''node_modules'', ''.git'', ''dist'', ''build''])"

function getFolderStructure_depth ::
    "(string \<Rightarrow> string \<Rightarrow> int) \<Rightarrow> fsnode \<Rightarrow> string \<Rightarrow> nat \<Rightarrow> nat \<Rightarrow> item list option"
  and itemLoop ::
    "(string \<Rightarrow> string \<Rightarrow> int) \<Rightarrow> string \<Rightarrow> nat \<Rightarrow> nat \<Rightarrow> (string \<times> fsnode) list \<Rightarrow> item list
       \<Rightarrow> exn + item list"
where
  "getFolderStructure_depth lc dir dirPath maxDepth currentDepth =
     (if currentDepth \<ge> maxDepth then None
      else
        (case (case readdir dir of
                 Inl e \<Rightarrow> Inl e
               | Inr items \<Rightarrow> itemLoop lc dirPath maxDepth currentDepth items []) of
           Inl error \<Rightarrow> None
         | Inr structure \<Rightarrow> Some (js_sort (compareItems lc) structure)))"
| "itemLoop lc dirPath maxDepth currentDepth [] structure = Inr structure"
| "itemLoop lc dirPath maxDepth currentDepth (entry # rest) structure =
     (if skipped (fst entry) then itemLoop lc dirPath maxDepth currentDepth rest structure
      else
        (case stat (snd entry) of
           Inl e \<Rightarrow> Inl e
         | Inr st \<Rightarrow>
             if stIsDirectory st then
               itemLoop lc dirPath maxDepth currentDepth rest
                 (structure @
                    [FolderItem (fst entry) (posix_join [dirPath, fst entry])
                       (case getFolderStructure_depth lc (snd entry)
                               (posix_join [dirPath, fst entry]) maxDepth (currentDepth + 1) of
                          None \<Rightarrow> []
                        | Some children \<Rightarrow> children)])
             else
               itemLoop lc dirPath maxDepth currentDepth rest
                 (structure @
                    [FileItem (fst entry) (posix_join [dirPath, fst entry]) (stSize st)])))"
  by pat_completeness auto
termination
  by (relation "measure (\<lambda>x. case x of
          Inl (lc, dir, dirPath, maxDepth, currentDepth) \<Rightarrow> 2 * size dir + 1
        | Inr (lc, dirPath, maxDepth, currentDepth, items, structure) \<Rightarrow>
            2 * size_list (size_prod (\<lambda>n. 0) size) items)")
    (auto elim: readdir.elims)


text \<open>
  What the results of the depth-limited walk are measured against: the names of an item
  and of everything below it, the listings below an item (the children of every folder,
  at any depth), and the order "folders before files, each group by name" for the
  comparison \<open>lc\<close>. \<open>codeUnitCompare\<close> compares names by character codes, as
  \<^verbatim>\<open>strcmp\<close> does; it is also one admissible \<open>lc\<close>. \<open>readdirOrdered\<close> says that every
  listing of a tree is in the order in which \<^verbatim>\<open>readdir\<close> reports names on POSIX,
  ascending by \<^verbatim>\<open>strcmp\<close>, and \<open>foldersByName\<close> that the folders below a folder are in
  that order at every depth.
\<close>

fun allNames :: "item \<Rightarrow> string list" where
  "allNames (FolderItem name path children) = name # concat (map allNames children)"
| "allNames (FileItem name path sz) = [name]"

fun listingsOf :: "item \<Rightarrow> item list list" where
  "listingsOf (FolderItem name path children) = children # concat (map listingsOf children)"
| "listingsOf (FileItem name path sz) = []"

definition foldersFirstByName :: "(string \<Rightarrow> string \<Rightarrow> int) \<Rightarrow> item list \<Rightarrow> bool" where
  "foldersFirstByName lc l =
     sorted_wrt (\<lambda>a b. (itemTypeOf a = fileType \<longrightarrow> itemTypeOf b = fileType)
                      \<and> (itemTypeOf a = itemTypeOf b \<longrightarrow> lc (itemName a) (itemName b) \<le> 0)) l"

fun codeUnitCompare :: "string \<Rightarrow> string \<Rightarrow> int" where
  "codeUnitCompare [] [] = 0"
| "codeUnitCompare [] (y # ys) = - 1"
| "codeUnitCompare (x # xs) [] = 1"
| "codeUnitCompare (x # xs) (y # ys) =
     (if (of_char x :: nat) < of_char y then - 1
      else if (of_char y :: nat) < of_char x then 1
      else codeUnitCompare xs ys)"

fun readdirOrdered :: "fsnode \<Rightarrow> bool" where
  "readdirOrdered (DirNode items) =
     (sorted_wrt (\<lambda>a b. codeUnitCompare a b < 0) (map fst items)
      \<and> list_all (\<lambda>e. readdirOrdered (snd e)) items)"
| "readdirOrdered (FileNode n) = True"
| "readdirOrdered DeniedDir = True"
| "readdirOrdered (Gone d) = True"

fun foldersByName :: "folder \<Rightarrow> bool" where
  "foldersByName (Folder name subs) =
     (sorted_wrt (\<lambda>a b. codeUnitCompare (folderName a) (folderName b) < 0) subs
      \<and> list_all foldersByName subs)"


section \<open>Reading file content\<close>

text \<open>
  The content readers see the file system through the calls they make on a path:
  \<^verbatim>\<open>fs.stat\<close> (size and modification time, as milliseconds), \<^verbatim>\<open>fs.readFile\<close> without
  an encoding (the bytes), \<^verbatim>\<open>fs.readFile\<close> with \<^verbatim>\<open>'utf8'\<close> (the decoded text) and
  \<^verbatim>\<open>fs.access\<close>. Each of the first three yields a value or throws. Strings and buffers
  are lists of bytes; a character outside ASCII stands as its UTF-8 bytes.
\<close>

datatype fileStats = FileStats (statSize: nat) (statMtime: nat)

record fileSystem =
  fsStat :: "string \<Rightarrow> exn + fileStats"
  fsReadFile :: "string \<Rightarrow> exn + string"
  fsReadFileUtf8 :: "string \<Rightarrow> exn + string"
  fsAccess :: "string \<Rightarrow> bool"

text \<open>
  What the host and the optional libraries provide. \<^verbatim>\<open>toLocaleString\<close> of a date
  depends on the locale; \<^verbatim>\<open>formatBytes\<close> and \<^verbatim>\<open>formatFileSize\<close> compute in floating
  point (\<^verbatim>\<open>Math.log\<close>, \<^verbatim>\<open>toFixed\<close>): the three are taken as given functions. Each of
  \<^verbatim>\<open>pdfParse\<close>, \<^verbatim>\<open>XLSX\<close> and \<^verbatim>\<open>mammoth\<close> is \<open>None\<close> when \<^verbatim>\<open>require\<close> failed at start-up;
  when the library is there, the value is the outcome of the \<^verbatim>\<open>try\<close> block of the
  matching \<^verbatim>\<open>process...File\<close> function on a path (reading the file, calling the library
  and laying out its result): the text, or the exception thrown on the way.
\<close>

record host =
  toLocaleString :: "nat \<Rightarrow> string"
  formatBytes :: "nat \<Rightarrow> string"
  formatFileSize :: "nat \<Rightarrow> string"
  pdfParse :: "(string \<Rightarrow> exn + string) option"
  XLSX :: "(string \<Rightarrow> exn + string) option"
  mammoth :: "(string \<Rightarrow> exn + string) option"

text \<open>The decimal digits of a number, as a template literal prints it.\<close>

fun showNat :: "nat \<Rightarrow> string" where
  "showNat n =
     (if n < 10 then [char_of (48 + n)]
      else showNat (n div 10) @ [char_of (48 + n mod 10)])"

declare showNat.simps [simp del]

text \<open>
  The descriptor built by \<^verbatim>\<open>readFileContent\<close>. \<^verbatim>\<open>error\<close> is \<^verbatim>\<open>null\<close> (\<open>None\<close>) or a
  message; \<^verbatim>\<open>downloadable\<close> is \<open>None\<close> while the object has no such key.
\<close>

record fileInfo =
  fileSize :: nat
  modified :: nat
  typeName :: string
  isText :: bool
  isBinary :: bool
  content :: string
  errorMsg :: "string option"
  downloadable :: "bool option"

subsection \<open>file_explorer_app.js\<close>

text \<open>
  \<^verbatim>\<open>processExcelFile\<close>, \<^verbatim>\<open>processDocxFile\<close> and \<^verbatim>\<open>processPptFile\<close> read the file, return
  a text made of its name and size, and return a message when the read throws:
  \<^verbatim>\<open>
  try {
    const buffer = await fs.readFile(filePath);
    return `Excel File Detected ... File: ${path.basename(filePath)} Size: ${buffer.length} bytes ...`;
  } catch (error) {
    return `Error reading Excel file: ${error.message}`;
  }
  \<close>
\<close>

definition processExcelFile :: "fileSystem \<Rightarrow> string \<Rightarrow> string" where
  "processExcelFile fs filePath =
     (case fsReadFile fs filePath of
        Inl error \<Rightarrow> ''Error reading Excel file: '' @
          message error
      | Inr buffer \<Rightarrow>
          ''Excel File Detected\<newline>'' @
          ''===================\<newline>'' @
          ''\<newline>'' @
          ''File: '' @
          basename filePath @
          ''\<newline>'' @
          ''Size: '' @
          showNat (length buffer) @
          '' bytes\<newline>'' @
          ''\<newline>'' @
          ''This is an Excel file (.xlsx/.xls). To properly view the content, you '' @
          ''would need:\<newline>'' @
          ''\<newline>'' @
          ''1. Microsoft Excel\<newline>'' @
          ''2. LibreOffice Calc  \<newline>'' @
          ''3. Google Sheets\<newline>'' @
          ''4. Online Excel viewer\<newline>'' @
          ''\<newline>'' @
          ''The file contains spreadsheet data with tables, formulas, and formatti'' @
          ''ng that cannot be displayed as plain text.\<newline>'' @
          ''\<newline>'' @
          ''Note: Full Excel parsing requires additional libraries like 'xlsx' or '' @
          [CHR 0x27] @
          ''exceljs' to extract worksheet data, formulas, and formatting.'')"

definition processDocxFile :: "fileSystem \<Rightarrow> string \<Rightarrow> string" where
  "processDocxFile fs filePath =
     (case fsReadFile fs filePath of
        Inl error \<Rightarrow> ''Error reading Word document: '' @
          message error
      | Inr buffer \<Rightarrow>
          ''Word Document Detected\<newline>'' @
          ''======================\<newline>'' @
          ''\<newline>'' @
          ''File: '' @
          basename filePath @
          ''\<newline>'' @
          ''Size: '' @
          showNat (length buffer) @
          '' bytes\<newline>'' @
          ''\<newline>'' @
          ''This is a Microsoft Word document (.docx). To properly view the conten'' @
          ''t, you would need:\<newline>'' @
          ''\<newline>'' @
          ''1. Microsoft Word\<newline>'' @
          ''2. LibreOffice Writer\<newline>'' @
          ''3. Google Docs\<newline>'' @
          ''4. Online Word viewer\<newline>'' @
          ''\<newline>'' @
          ''The file contains formatted text, images, tables, and other rich conte'' @
          ''nt that cannot be fully displayed as plain text.\<newline>'' @
          ''\<newline>'' @
          ''Note: Full DOCX text extraction requires libraries like 'mammoth' or '' @
          [CHR 0x27] @
          ''docx-parser' to extract the document content while preserving formatti'' @
          ''ng.'')"

definition processPptFile :: "fileSystem \<Rightarrow> string \<Rightarrow> string" where
  "processPptFile fs filePath =
     (case fsReadFile fs filePath of
        Inl error \<Rightarrow> ''Error reading PowerPoint file: '' @
          message error
      | Inr buffer \<Rightarrow>
          (let ext = toLowerCase (extname filePath) in
            ''PowerPoint Presentation Detected\<newline>'' @
            ''===============================\<newline>'' @
            ''\<newline>'' @
            ''File: '' @
            basename filePath @
            ''\<newline>'' @
            ''Size: '' @
            showNat (length buffer) @
            '' bytes\<newline>'' @
            ''Format: '' @
            (if ext = ''.pptx'' then ''PowerPoint 2007+ (PPTX)'' else ''PowerPoint Legacy (PPT)'') @
            ''\<newline>'' @
            ''\<newline>'' @
            ''This is a Microsoft PowerPoint presentation. To properly view the cont'' @
            ''ent, you would need:\<newline>'' @
            ''\<newline>'' @
            ''1. Microsoft PowerPoint\<newline>'' @
            ''2. LibreOffice Impress\<newline>'' @
            ''3. Google Slides\<newline>'' @
            ''4. Online PowerPoint viewer\<newline>'' @
            ''\<newline>'' @
            ''The file contains slides with text, images, animations, and other mult'' @
            ''imedia content that cannot be displayed as plain text.\<newline>'' @
            ''\<newline>'' @
            ''Note: PowerPoint file parsing requires specialized libraries to extrac'' @
            ''t slide content, speaker notes, and embedded media.''))"

text \<open>
  \<^verbatim>\<open>
  async function readFileContent(filePath) {
    const ext = path.extname(filePath).toLowerCase();
    const stats = await fs.stat(filePath);
    const fileInfo = { size: stats.size, modified: stats.mtime, type: ext.slice(1),
      isText: false, isBinary: false, content: '', error: null };
    try {
      switch (ext) {
        case '.pdf':
          fileInfo.isBinary = true;
          fileInfo.content = 'PDF files require a PDF viewer. ...';
          fileInfo.downloadable = true;
          break;
        case '.xlsx':
        case '.xls':
          fileInfo.isBinary = true;
          fileInfo.content = await processExcelFile(filePath);
          break;
        case '.docx':
          fileInfo.isBinary = true;
          fileInfo.content = await processDocxFile(filePath);
          break;
        case '.doc':
          fileInfo.isBinary = true;
          fileInfo.content = 'Legacy DOC files require ...';
          break;
        case '.pptx':
        case '.ppt':
          fileInfo.isBinary = true;
          fileInfo.content = await processPptFile(filePath);
          break;
        default:
          fileInfo.isText = true;
          fileInfo.content = await fs.readFile(filePath, 'utf8');
          break;
      }
    } catch (error) {
      fileInfo.error = `Error reading file: ${error.message}`;
      fileInfo.content = 'Unable to read file content. ...';
    }
    return fileInfo;
  }
  \<close>
  The \<^verbatim>\<open>try\<close> block is \<open>readFileContent_try\<close>: it returns the descriptor as the block
  leaves it, and the exception when it leaves by one. \<^verbatim>\<open>fs.stat\<close> is awaited before the
  \<^verbatim>\<open>try\<close>, so its exception leaves \<^verbatim>\<open>readFileContent\<close> (the result \<open>Inl\<close>).
\<close>

definition readFileContent_try ::
  "fileSystem \<Rightarrow> string \<Rightarrow> string \<Rightarrow> fileInfo \<Rightarrow> fileInfo \<times> exn option" where
  "readFileContent_try fs filePath ext fileInfo =
     (if ext = ''.pdf'' then
        (fileInfo\<lparr>isBinary := True,
           content := ''PDF files require a PDF viewer. The file is available for download but'' @
                 '' cannot be displayed as text in this interface.'',
           downloadable := Some True\<rparr>, None)
      else if ext = ''.xlsx'' \<or> ext = ''.xls'' then
        (fileInfo\<lparr>isBinary := True, content := processExcelFile fs filePath\<rparr>, None)
      else if ext = ''.docx'' then
        (fileInfo\<lparr>isBinary := True, content := processDocxFile fs filePath\<rparr>, None)
      else if ext = ''.doc'' then
        (fileInfo\<lparr>isBinary := True,
           content := ''Legacy DOC files require Microsoft Word or a compatible application. P'' @
                 ''lease convert to DOCX format for text extraction.''\<rparr>, None)
      else if ext = ''.pptx'' \<or> ext = ''.ppt'' then
        (fileInfo\<lparr>isBinary := True, content := processPptFile fs filePath\<rparr>, None)
      else
        (case fsReadFileUtf8 fs filePath of
           Inl error \<Rightarrow> (fileInfo\<lparr>isText := True\<rparr>, Some error)
         | Inr text \<Rightarrow> (fileInfo\<lparr>isText := True, content := text\<rparr>, None)))"

definition readFileContent :: "fileSystem \<Rightarrow> string \<Rightarrow> exn + fileInfo" where
  "readFileContent fs filePath =
     (let ext = toLowerCase (extname filePath) in
      case fsStat fs filePath of
        Inl e \<Rightarrow> Inl e
      | Inr stats \<Rightarrow>
          (case readFileContent_try fs filePath ext
                  \<lparr>fileSize = statSize stats, modified = statMtime stats, typeName = drop 1 ext,
                   isText = False, isBinary = False, content = [], errorMsg = None,
                   downloadable = None\<rparr> of
             (fileInfo, None) \<Rightarrow> Inr fileInfo
           | (fileInfo, Some error) \<Rightarrow>
               Inr (fileInfo\<lparr>errorMsg := Some (''Error reading file: '' @ message error),
                      content := ''Unable to read file content. The file may be corrupted or in an unsupp'' @
                      ''orted format.''\<rparr>)))"

text \<open>
  \<^verbatim>\<open>GET /api/file/:filePath(*)\<close> of file_explorer_app.js: the security check, then
  \<^verbatim>\<open>
  const exists = await fs.access(fullPath).then(() => true).catch(() => false);
  if (!exists) {
    return res.status(404).json({ error: 'File not found' });
  }
  const fileInfo = await readFileContent(fullPath);
  res.json(fileInfo);
  \<close>
  inside a \<^verbatim>\<open>try\<close> whose \<^verbatim>\<open>catch\<close> replies 500.
\<close>

definition apiFile ::
  "fileSystem \<Rightarrow> string \<Rightarrow> string option \<Rightarrow> string \<Rightarrow> errorReply + fileInfo" where
  "apiFile fs cwd ROOT_FOLDER filePath =
     (case ROOT_FOLDER of
        None \<Rightarrow> Inl (400, ''Root folder not configured'')
      | Some root \<Rightarrow>
          if root = [] then Inl (400, ''Root folder not configured'')
          else
            (case securityCheck cwd root filePath of
               Inl denied \<Rightarrow> Inl denied
             | Inr fullPath \<Rightarrow>
                 if \<not> fsAccess fs fullPath then Inl (404, ''File not found'')
                 else
                   (case readFileContent fs fullPath of
                      Inl error \<Rightarrow> Inl (500, ''Unable to read file: '' @ message error)
                    | Inr fileInfo \<Rightarrow> Inr fileInfo)))"

subsection \<open>enhanced_server.js\<close>

text \<open>
  \<^verbatim>\<open>processPdfFile\<close>, \<^verbatim>\<open>processExcelFile\<close> and \<^verbatim>\<open>processDocxFile\<close> wrap the work with the
  library in \<^verbatim>\<open>try\<close>/\<^verbatim>\<open>catch\<close> and return a message when it throws. The argument
  \<open>extract\<close> is the library's entry of \<open>host\<close>.
\<close>

definition processPdfFile :: "(string \<Rightarrow> exn + string) \<Rightarrow> string \<Rightarrow> string" where
  "processPdfFile extract filePath =
     (case extract filePath of
        Inl error \<Rightarrow> ''Error processing PDF: '' @
          message error @
          ''\<newline>'' @
          ''\<newline>'' @
          ''The PDF file may be:\<newline>'' @
          ''- Password protected\<newline>'' @
          ''- Corrupted\<newline>'' @
          ''- Using unsupported features''
      | Inr text \<Rightarrow> text)"

definition processExcelFile_enhanced :: "(string \<Rightarrow> exn + string) \<Rightarrow> string \<Rightarrow> string" where
  "processExcelFile_enhanced extract filePath =
     (case extract filePath of
        Inl error \<Rightarrow> ''Error processing Excel file: '' @
          message error @
          ''\<newline>'' @
          ''\<newline>'' @
          ''The Excel file may be:\<newline>'' @
          ''- Corrupted\<newline>'' @
          ''- Password protected\<newline>'' @
          ''- Using unsupported Excel features''
      | Inr text \<Rightarrow> text)"

definition processDocxFile_enhanced :: "(string \<Rightarrow> exn + string) \<Rightarrow> string \<Rightarrow> string" where
  "processDocxFile_enhanced extract filePath =
     (case extract filePath of
        Inl error \<Rightarrow> ''Error processing Word document: '' @
          message error @
          ''\<newline>'' @
          ''\<newline>'' @
          ''The document may be:\<newline>'' @
          ''- Corrupted\<newline>'' @
          ''- Password protected\<newline>'' @
          ''- Using unsupported Word features''
      | Inr text \<Rightarrow> text)"

text \<open>
  \<^verbatim>\<open>
  async function processPptFile(filePath) {
    try {
      const buffer = await fs.readFile(filePath);
      const ext = path.extname(filePath).toLowerCase();
      const stats = await fs.stat(filePath);
      return `PowerPoint Presentation ... File: ${path.basename(filePath)} ...`;
    } catch (error) {
      return `Error accessing PowerPoint file: ${error.message}`;
    }
  }
  \<close>
\<close>

definition processPptFile_enhanced :: "host \<Rightarrow> fileSystem \<Rightarrow> string \<Rightarrow> string" where
  "processPptFile_enhanced host fs filePath =
     (case fsReadFile fs filePath of
        Inl error \<Rightarrow> ''Error accessing PowerPoint file: '' @
          message error
      | Inr buffer \<Rightarrow>
          (let ext = toLowerCase (extname filePath) in
           case fsStat fs filePath of
             Inl error \<Rightarrow> ''Error accessing PowerPoint file: '' @
              message error
           | Inr stats \<Rightarrow>
                ''PowerPoint Presentation\<newline>'' @
                ''========================\<newline>'' @
                ''\<newline>'' @
                ''File: '' @
                basename filePath @
                ''\<newline>'' @
                ''Format: '' @
                (if ext = ''.pptx'' then ''PowerPoint 2007+ (PPTX)'' else ''PowerPoint Legacy (PPT)'') @
                ''\<newline>'' @
                ''Size: '' @
                formatBytes host (length buffer) @
                ''\<newline>'' @
                ''Last Modified: '' @
                toLocaleString host (statMtime stats) @
                ''\<newline>'' @
                ''\<newline>'' @
                ''PowerPoint Content Extraction:\<newline>'' @
                ''-----------------------------\<newline>'' @
                ''\<newline>'' @
                [CHR 0xE2, CHR 0x9A, CHR 0xA0, CHR 0xEF, CHR 0xB8, CHR 0x8F] @
                '' Full PowerPoint text extraction requires specialized libraries.\<newline>'' @
                ''\<newline>'' @
                ''For complete slide content extraction, consider using:\<newline>'' @
                ''- python-pptx (Python)\<newline>'' @
                ''- Apache POI (Java)\<newline>'' @
                ''- Online PowerPoint to text converters\<newline>'' @
                ''\<newline>'' @
                ''This file is available for download to view in:\<newline>'' @
                ''- Microsoft PowerPoint\<newline>'' @
                ''- LibreOffice Impress  \<newline>'' @
                ''- Google Slides\<newline>'' @
                ''- Online PowerPoint viewers\<newline>'' @
                ''\<newline>'' @
                ''The presentation may contain:\<newline>'' @
                ''- Multiple slides with text content\<newline>'' @
                ''- Images and multimedia\<newline>'' @
                ''- Animations and transitions\<newline>'' @
                ''- Speaker notes\<newline>'' @
                ''- Embedded charts and tables''))"

text \<open>
  \<^verbatim>\<open>readFileContent\<close> of enhanced_server.js: the descriptor starts with
  \<^verbatim>\<open>downloadable: false\<close>, every office case sets \<^verbatim>\<open>downloadable = true\<close>, and the cases
  with a library test it first:
  \<^verbatim>\<open>
  case '.pdf':
    fileInfo.isBinary = true;
    fileInfo.downloadable = true;
    if (pdfParse) {
      fileInfo.content = await processPdfFile(filePath);
    } else {
      fileInfo.content = 'PDF Processing Unavailable\n\nTo enable PDF text extraction, ...';
    }
    break;
  \<close>
\<close>

definition readFileContent_enhanced_try ::
  "host \<Rightarrow> fileSystem \<Rightarrow> string \<Rightarrow> string \<Rightarrow> fileInfo \<Rightarrow> fileInfo \<times> exn option" where
  "readFileContent_enhanced_try host fs filePath ext fileInfo =
     (if ext = ''.pdf'' then
        (fileInfo\<lparr>isBinary := True, downloadable := Some True,
           content :=
             (case pdfParse host of
                Some extract \<Rightarrow> processPdfFile extract filePath
              | None \<Rightarrow>
                 ''PDF Processing Unavailable\<newline>'' @
                 ''\<newline>'' @
                 ''To enable PDF text extraction, install the pdf-parse library:\<newline>'' @
                 ''npm install pdf-parse\<newline>'' @
                 ''\<newline>'' @
                 ''The file is available for download.'')\<rparr>, None)
      else if ext = ''.xlsx'' \<or> ext = ''.xls'' then
        (fileInfo\<lparr>isBinary := True, downloadable := Some True,
           content :=
             (case XLSX host of
                Some extract \<Rightarrow> processExcelFile_enhanced extract filePath
              | None \<Rightarrow>
                 ''Excel Processing Unavailable\<newline>'' @
                 ''\<newline>'' @
                 ''To enable Excel file reading, install the xlsx library:\<newline>'' @
                 ''npm install xlsx\<newline>'' @
                 ''\<newline>'' @
                 ''The file is available for download.'')\<rparr>, None)
      else if ext = ''.docx'' then
        (fileInfo\<lparr>isBinary := True, downloadable := Some True,
           content :=
             (case mammoth host of
                Some extract \<Rightarrow> processDocxFile_enhanced extract filePath
              | None \<Rightarrow>
                 ''Word Document Processing Unavailable\<newline>'' @
                 ''\<newline>'' @
                 ''To enable DOCX text extraction, install the mammoth library:\<newline>'' @
                 ''npm install mammoth\<newline>'' @
                 ''\<newline>'' @
                 ''The file is available for download.'')\<rparr>, None)
      else if ext = ''.doc'' then
        (fileInfo\<lparr>isBinary := True, downloadable := Some True,
           content := ''Legacy DOC Format\<newline>'' @
                 ''\<newline>'' @
                 ''Legacy .DOC files are not supported for text extraction.\<newline>'' @
                 ''Please convert to .DOCX format or use Microsoft Word.\<newline>'' @
                 ''\<newline>'' @
                 ''The file is available for download.''\<rparr>, None)
      else if ext = ''.pptx'' \<or> ext = ''.ppt'' then
        (fileInfo\<lparr>isBinary := True, downloadable := Some True,
           content := processPptFile_enhanced host fs filePath\<rparr>, None)
      else
        (case fsReadFileUtf8 fs filePath of
           Inl error \<Rightarrow> (fileInfo\<lparr>isText := True\<rparr>, Some error)
         | Inr text \<Rightarrow> (fileInfo\<lparr>isText := True, content := text\<rparr>, None)))"

definition readFileContent_enhanced :: "host \<Rightarrow> fileSystem \<Rightarrow> string \<Rightarrow> exn + fileInfo" where
  "readFileContent_enhanced host fs filePath =
     (let ext = toLowerCase (extname filePath) in
      case fsStat fs filePath of
        Inl e \<Rightarrow> Inl e
      | Inr stats \<Rightarrow>
          (case readFileContent_enhanced_try host fs filePath ext
                  \<lparr>fileSize = statSize stats, modified = statMtime stats, typeName = drop 1 ext,
                   isText = False, isBinary = False, content = [], errorMsg = None,
                   downloadable = Some False\<rparr> of
             (fileInfo, None) \<Rightarrow> Inr fileInfo
           | (fileInfo, Some error) \<Rightarrow>
               Inr (fileInfo\<lparr>errorMsg := Some (''Error reading file: '' @ message error),
                      content := ''Unable to read file content: '' @
                      message error @
                      ''\<newline>'' @
                      ''\<newline>'' @
                      ''The file may be:\<newline>'' @
                      ''- Corrupted\<newline>'' @
                      ''- Password protected\<newline>'' @
                      ''- In an unsupported format\<newline>'' @
                      ''- Too large to process''\<rparr>)))"

subsection \<open>The simple explorer: images as data URIs\<close>

text \<open>
  \<^verbatim>\<open>Buffer.prototype.toString('base64')\<close>: three bytes become four characters of the
  alphabet, and a last group of one or two bytes is padded with \<^verbatim>\<open>=\<close>. The decoder is
  the inverse reading of such a text.
\<close>

definition base64Alphabet :: string where
  "base64Alphabet = ''ABCDEFGHIJKLMNOPQRSTUVWXYZabcdefghijklmnopqrstuvwxyz0123456789+/''"

definition enc6 :: "nat \<Rightarrow> char" where
  "enc6 n = base64Alphabet ! n"

fun base64 :: "string \<Rightarrow> string" where
  "base64 [] = []"
| "base64 [a] =
     [enc6 (of_char a div 4), enc6 (of_char a mod 4 * 16), CHR ''='', CHR ''='']"
| "base64 [a, b] =
     [enc6 (of_char a div 4), enc6 (of_char a mod 4 * 16 + of_char b div 16),
      enc6 (of_char b mod 16 * 4), CHR ''='']"
| "base64 (a # b # c # rest) =
     [enc6 (of_char a div 4), enc6 (of_char a mod 4 * 16 + of_char b div 16),
      enc6 (of_char b mod 16 * 4 + of_char c div 64), enc6 (of_char c mod 64)] @ base64 rest"

fun indexOf :: "char \<Rightarrow> string \<Rightarrow> nat option" where
  "indexOf c [] = None"
| "indexOf c (x # xs) = (if x = c then Some 0 else map_option Suc (indexOf c xs))"

definition dec6 :: "char \<Rightarrow> nat option" where
  "dec6 c = indexOf c base64Alphabet"

fun base64_decode :: "string \<Rightarrow> string option" where
  "base64_decode [] = Some []"
| "base64_decode (c0 # c1 # c2 # c3 # rest) =
     (case (dec6 c0, dec6 c1) of
        (Some s0, Some s1) \<Rightarrow>
          if c2 = CHR ''='' \<and> c3 = CHR ''='' \<and> rest = [] then Some [char_of (s0 * 4 + s1 div 16)]
          else
            (case dec6 c2 of
               None \<Rightarrow> None
             | Some s2 \<Rightarrow>
                 if c3 = CHR ''='' \<and> rest = []
                 then Some [char_of (s0 * 4 + s1 div 16), char_of (s1 mod 16 * 16 + s2 div 4)]
                 else
                   (case dec6 c3 of
                      None \<Rightarrow> None
                    | Some s3 \<Rightarrow>
                        (case base64_decode rest of
                           None \<Rightarrow> None
                         | Some bytes \<Rightarrow>
                             Some (char_of (s0 * 4 + s1 div 16) #
                                   char_of (s1 mod 16 * 16 + s2 div 4) #
                                   char_of (s2 mod 4 * 64 + s3) # bytes))))
      | _ \<Rightarrow> None)"
| "base64_decode _ = None"

text \<open>
  \<^verbatim>\<open>getFileTypeName\<close> and the handler \<^verbatim>\<open>GET /api/file/:filePath(*)\<close> of the simple
  explorer:
  \<^verbatim>\<open>
  const stats = await fs.stat(fullPath);
  const ext = path.extname(fullPath).toLowerCase();
  const fileInfo = { name: path.basename(fullPath), size: stats.size, modified: stats.mtime,
    type: ext.slice(1), content: '', isText: false, isImage: false, downloadable: true };
  if (['.txt', '.csv'].includes(ext)) {
    fileInfo.content = await fs.readFile(fullPath, 'utf8');
    fileInfo.isText = true;
  } else if (['.jpg', '.png'].includes(ext)) {
    fileInfo.isImage = true;
    fileInfo.content = `data:image/${ext.slice(1) === 'jpg' ? 'jpeg' : ext.slice(1)};base64,${
      (await fs.readFile(fullPath)).toString('base64')}`;
  } else {
    fileInfo.content = `File: ${fileInfo.name}\nType: ${getFileTypeName(ext)}\n...`;
  }
  res.json(fileInfo);
  \<close>
  with every exception turned into the reply 500 carrying its message.
\<close>

definition getFileTypeName :: "string \<Rightarrow> string" where
  "getFileTypeName ext =
     (case map_of
        [(''.txt'', ''Text File''),
         (''.csv'', ''CSV Spreadsheet''),
         (''.xlsx'', ''Excel Spreadsheet''),
         (''.xls'', ''Excel Spreadsheet (Legacy)''),
         (''.docx'', ''Word Document''),
         (''.doc'', ''Word Document (Legacy)''),
         (''.pdf'', ''PDF Document''),
         (''.jpg'', ''JPEG Image''),
         (''.png'', ''PNG Image'')] ext of
        Some name \<Rightarrow> name
      | None \<Rightarrow> ''Unknown File'')"

record fileDescriptor =
  descName :: string
  descSize :: nat
  descModified :: nat
  descType :: string
  descContent :: string
  descIsText :: bool
  descIsImage :: bool
  descDownloadable :: bool

definition apiFile_simple ::
  "host \<Rightarrow> fileSystem \<Rightarrow> string \<Rightarrow> string option \<Rightarrow> string \<Rightarrow> errorReply + fileDescriptor" where
  "apiFile_simple host fs cwd ROOT_FOLDER filePath =
     (case ROOT_FOLDER of
        None \<Rightarrow> Inl (400, ''Root folder not configured'')
      | Some root \<Rightarrow>
          if root = [] then Inl (400, ''Root folder not configured'')
          else
            (case securityCheck cwd root filePath of
               Inl denied \<Rightarrow> Inl denied
             | Inr fullPath \<Rightarrow>
                 (case fsStat fs fullPath of
                    Inl error \<Rightarrow> Inl (500, message error)
                  | Inr stats \<Rightarrow>
                      let ext = toLowerCase (extname fullPath);
                          fileInfo = \<lparr>descName = basename fullPath, descSize = statSize stats,
                                      descModified = statMtime stats, descType = drop 1 ext,
                                      descContent = [], descIsText = False, descIsImage = False,
                                      descDownloadable = True\<rparr>
                      in
                      if ext \<in> set [''.txt'', ''.csv''] then
                        (case fsReadFileUtf8 fs fullPath of
                           Inl error \<Rightarrow> Inl (500, message error)
                         | Inr text \<Rightarrow> Inr (fileInfo\<lparr>descContent := text, descIsText := True\<rparr>))
                      else if ext \<in> set [''.jpg'', ''.png''] then
                        (case fsReadFile fs fullPath of
                           Inl error \<Rightarrow> Inl (500, message error)
                         | Inr buffer \<Rightarrow>
                             Inr (fileInfo\<lparr>descIsImage := True,
                                    descContent :=
                                      ''data:image/'' @
                                      (if drop 1 ext = ''jpg'' then ''jpeg'' else drop 1 ext) @
                                      '';base64,'' @ base64 buffer\<rparr>))
                      else
                        Inr (fileInfo\<lparr>descContent :=
                        ''File: '' @
                        basename fullPath @
                        ''\<newline>'' @
                        ''Type: '' @
                        getFileTypeName ext @
                        ''\<newline>'' @
                        ''Size: '' @
                        formatFileSize host (statSize stats) @
                        ''\<newline>'' @
                        ''Modified: '' @
                        toLocaleString host (statMtime stats) @
                        ''\<newline>'' @
                        ''\<newline>'' @
                        ''This file type requires specialized software to view properly.\<newline>'' @
                        ''Use the download button to save the file locally.''\<rparr>))))"


section \<open>Example inputs\<close>

text \<open>
  File systems and hosts for the concrete evaluations below: a sibling directory of the
  root \<^verbatim>\<open>/root\<close>; a root with a file \<^verbatim>\<open>A.txt\<close> and the folders \<^verbatim>\<open>B\<close> and \<^verbatim>\<open>a\<close>,
  listed in \<^verbatim>\<open>strcmp\<close> order; files of three bytes that can be read; the same files
  when every read is refused; files that \<^verbatim>\<open>stat\<close> does not find; files that pass
  \<^verbatim>\<open>fs.access\<close> and are gone when \<^verbatim>\<open>fs.stat\<close> runs; a host without the optional
  libraries that prints numbers in decimal; a host whose libraries all throw.
\<close>

definition siblingFs :: "string \<Rightarrow> fsnode" where
  "siblingFs p = (if p = ''/root-evil'' then DirNode [(''secret.txt'', FileNode 7)] else Gone False)"

definition mixedDir :: fsnode where
  "mixedDir =
     DirNode [(''A.txt'', FileNode 1),
              (''B'', DirNode [(''x'', DirNode []), (''y'', FileNode 2)]),
              (''a'', DirNode [])]"

definition mixedFs :: "string \<Rightarrow> fsnode" where
  "mixedFs p = (if p = ''/root'' then mixedDir else Gone False)"

definition smallFiles :: fileSystem where
  "smallFiles =
     \<lparr>fsStat = (\<lambda>p. Inr (FileStats 3 1700000000000)), fsReadFile = (\<lambda>p. Inr ''Man''),
      fsReadFileUtf8 = (\<lambda>p. Inr ''Man''), fsAccess = (\<lambda>p. True)\<rparr>"

definition refusedFiles :: fileSystem where
  "refusedFiles =
     \<lparr>fsStat = (\<lambda>p. Inr (FileStats 3 1700000000000)), fsReadFile = (\<lambda>p. Inl (Error ''EACCES'')),
      fsReadFileUtf8 = (\<lambda>p. Inl (Error ''EACCES'')), fsAccess = (\<lambda>p. True)\<rparr>"

definition missingFiles :: fileSystem where
  "missingFiles =
     \<lparr>fsStat = (\<lambda>p. Inl (Error ''ENOENT'')), fsReadFile = (\<lambda>p. Inl (Error ''ENOENT'')),
      fsReadFileUtf8 = (\<lambda>p. Inl (Error ''ENOENT'')), fsAccess = (\<lambda>p. False)\<rparr>"

definition plainHost :: host where
  "plainHost =
     \<lparr>toLocaleString = showNat, formatBytes = showNat, formatFileSize = showNat,
      pdfParse = None, XLSX = None, mammoth = None\<rparr>"

definition vanishingFiles :: fileSystem where
  "vanishingFiles =
     \<lparr>fsStat = (\<lambda>p. Inl (Error ''ENOENT'')), fsReadFile = (\<lambda>p. Inl (Error ''ENOENT'')),
      fsReadFileUtf8 = (\<lambda>p. Inl (Error ''ENOENT'')), fsAccess = (\<lambda>p. True)\<rparr>"

definition failingHost :: host where
  "failingHost =
     \<lparr>toLocaleString = showNat, formatBytes = showNat, formatFileSize = showNat,
      pdfParse = Some (\<lambda>p. Inl (Error ''bad XRef entry'')),
      XLSX = Some (\<lambda>p. Inl (Error ''Unsupported file'')),
      mammoth = Some (\<lambda>p. Inl (Error ''Could not find file in options''))\<rparr>"

section \<open>Properties of the path functions\<close>


lemma splitSlash_not_Nil: "splitSlash s \<noteq> []"
  by (induction s) (auto split: list.splits)

lemma splitSlash_append: "splitSlash (a @ CHR ''/'' # b) = splitSlash a @ splitSlash b"
  by (induction a) (auto split: list.splits simp: splitSlash_not_Nil)

lemma splitSlash_no_slash: "w \<in> set (splitSlash s) \<Longrightarrow> CHR ''/'' \<notin> set w"
  by (induction s arbitrary: w) (auto split: list.splits if_splits)

lemma splitSlash_plain: "CHR ''/'' \<notin> set w \<Longrightarrow> splitSlash w = [w]"
  by (induction w) auto

lemma splitSlash_joinSlash:
  "segs \<noteq> [] \<Longrightarrow> \<forall>w \<in> set segs. CHR ''/'' \<notin> set w \<Longrightarrow> splitSlash (joinSlash segs) = segs"
proof (induction segs rule: joinSlash.induct)
  case 1
  then show ?case by simp
next
  case (2 s)
  then show ?case by (simp add: splitSlash_plain)
next
  case (3 s t ss)
  then show ?case by (simp add: splitSlash_append splitSlash_plain)
qed


lemma normalizeSegs_append:
  "normalizeSegs a res (xs @ ys) = normalizeSegs a (rev (normalizeSegs a res xs)) ys"
  by (induction a res xs rule: normalizeSegs.induct) (auto split: list.splits)

lemma normalizeSegs_clean_input:
  "cleanSegs xs \<Longrightarrow> normalizeSegs a res xs = rev res @ xs"
  by (induction a res xs rule: normalizeSegs.induct) (auto simp: cleanSegs_def)

lemma normalizeSegs_no_dotdot:
  "''..'' \<notin> set xs \<Longrightarrow>
   normalizeSegs a res xs = rev res @ filter (\<lambda>s. s \<noteq> [] \<and> s \<noteq> ''.'') xs"
  by (induction a res xs rule: normalizeSegs.induct) auto

lemma cleanSegs_Cons: "cleanSegs (s # ss) = (s \<noteq> [] \<and> s \<noteq> ''.'' \<and> s \<noteq> ''..'' \<and> cleanSegs ss)"
  by (auto simp: cleanSegs_def)

lemma cleanSegs_rev: "cleanSegs (rev ss) = cleanSegs ss"
  by (simp add: cleanSegs_def)

lemma normalizeSegs_clean_output:
  "cleanSegs res \<Longrightarrow> cleanSegs (normalizeSegs False res xs)"
proof (induction xs arbitrary: res)
  case Nil
  then show ?case by (simp add: cleanSegs_rev)
next
  case (Cons s ss)
  show ?case
  proof (cases "s = [] \<or> s = ''.''")
    case True
    then show ?thesis using Cons by auto
  next
    case False
    show ?thesis
    proof (cases "s = ''..''")
      case True
      show ?thesis
      proof (cases res)
        case Nil
        then show ?thesis using True Cons by simp
      next
        case (Cons r rs)
        then have "cleanSegs rs" "r \<noteq> ''..''" using Cons.prems by (simp_all add: cleanSegs_Cons)
        then show ?thesis using True Cons Cons.IH [of rs] Cons.IH [of res] Cons.prems by simp
      qed
    next
      case F2: False
      then have "cleanSegs (s # res)" using False Cons.prems by (simp add: cleanSegs_Cons)
      then show ?thesis using False F2 Cons.IH [of "s # res"] by simp
    qed
  qed
qed

lemma normalizeSegs_subset:
  "set (normalizeSegs a res xs) \<subseteq> set res \<union> set xs"
  by (induction a res xs rule: normalizeSegs.induct) (auto split: list.splits if_splits)


lemma normalizeSegs_snoc_empty:
  "normalizeSegs a res (xs @ [[]]) = normalizeSegs a res xs"
  by (simp add: normalizeSegs_append)

lemma isAbsolute_Cons: "isAbsolute s \<Longrightarrow> \<exists>t. s = CHR ''/'' # t"
  by (cases s) (auto simp: isAbsolute_def)

lemma resolve_absolute:
  assumes "isAbsolute s"
  shows "posix_resolve cwd [s] = CHR ''/'' # joinSlash (normalizeSegs False [] (splitSlash s))"
proof -
  from assms obtain t where s: "s = CHR ''/'' # t" using isAbsolute_Cons by blast
  have "splitSlash (s @ ''/'') = splitSlash s @ [[]]"
    using splitSlash_append [of s "[]"] by simp
  then show ?thesis
    using assms by (simp add: posix_resolve_def normalizeString_def isAbsolute_def s normalizeSegs_snoc_empty del: splitSlash.simps)
qed

lemma canonical_segments:
  "cleanSegs (normalizeSegs False [] (splitSlash s))"
  "\<forall>w \<in> set (normalizeSegs False [] (splitSlash s)). CHR ''/'' \<notin> set w"
  using normalizeSegs_clean_output [of "[]" "splitSlash s"]
    normalizeSegs_subset [of False "[]" "splitSlash s"] splitSlash_no_slash
  by (auto simp: cleanSegs_def)

lemma split_rendered:
  assumes "cleanSegs N" "\<forall>w \<in> set N. CHR ''/'' \<notin> set w"
  shows "normalizeSegs False [] (splitSlash (CHR ''/'' # joinSlash N)) = N"
    and "normalizeSegs False [] (splitSlash (CHR ''/'' # joinSlash N @ ''/'')) = N"
    and "segmentsOf (CHR ''/'' # joinSlash N) = N"
proof -
  have sp: "splitSlash (joinSlash N) = (if N = [] then [[]] else N)"
    using assms splitSlash_joinSlash by auto
  have sp2: "splitSlash (joinSlash N @ ''/'') = (if N = [] then [[]] else N) @ [[]]"
    using splitSlash_append [of "joinSlash N" "[]"] sp by simp
  show "normalizeSegs False [] (splitSlash (CHR ''/'' # joinSlash N)) = N"
    using assms sp by (simp add: normalizeSegs_clean_input)
  show "normalizeSegs False [] (splitSlash (CHR ''/'' # joinSlash N @ ''/'')) = N"
    using assms sp2 by (simp add: normalizeSegs_clean_input normalizeSegs_snoc_empty)
  have "filter (\<lambda>s. s \<noteq> []) N = N"
    using assms by (auto simp: cleanSegs_def intro: filter_True)
  then show "segmentsOf (CHR ''/'' # joinSlash N) = N"
    using sp by (simp add: segmentsOf_def)
qed

lemma normalize_absolute:
  assumes "isAbsolute s"
  shows "isAbsolute (posix_normalize s)"
    and "normalizeSegs False [] (splitSlash (posix_normalize s)) = normalizeSegs False [] (splitSlash s)"
proof -
  let ?N = "normalizeSegs False [] (splitSlash s)"
  from assms have ne: "s \<noteq> []" by (auto simp: isAbsolute_def)
  have c: "cleanSegs ?N" "\<forall>w \<in> set ?N. CHR ''/'' \<notin> set w" using canonical_segments by auto
  have j: "joinSlash ?N = [] \<Longrightarrow> ?N = []"
    using c by (cases ?N rule: joinSlash.cases) (auto simp: cleanSegs_def)
  show "isAbsolute (posix_normalize s)"
    using assms ne by (simp add: posix_normalize_def Let_def isAbsolute_def normalizeString_def)
  show "normalizeSegs False [] (splitSlash (posix_normalize s)) = ?N"
    using assms ne split_rendered [OF c] j
    by (auto simp: posix_normalize_def Let_def normalizeString_def)
qed

lemma normalizeSegs_kept:
  "list_all (\<lambda>r. r \<noteq> [] \<and> r \<noteq> ''.'') res \<Longrightarrow>
   list_all (\<lambda>r. r \<noteq> [] \<and> r \<noteq> ''.'') (normalizeSegs a res xs)"
proof (induction xs arbitrary: res)
  case Nil
  then show ?case by simp
next
  case (Cons s ss)
  show ?case
  proof (cases "s = [] \<or> s = ''.''")
    case True
    then show ?thesis using Cons by auto
  next
    case False
    show ?thesis
    proof (cases "s = ''..''")
      case True
      show ?thesis
      proof (cases res)
        case Nil
        then show ?thesis using True Cons.IH [of "[''..'']"] Cons.IH [of "[]"] by (cases a) simp_all
      next
        case (Cons r rs)
        then have "list_all (\<lambda>r. r \<noteq> [] \<and> r \<noteq> ''.'') rs" using Cons.prems by simp
        then show ?thesis
          using True Cons Cons.IH [of rs] Cons.IH [of res] Cons.IH [of "''..'' # res"] Cons.prems
          by (cases a) auto
      qed
    next
      case F2: False
      then have "list_all (\<lambda>r. r \<noteq> [] \<and> r \<noteq> ''.'') (s # res)" using False Cons.prems by simp
      then show ?thesis using False F2 Cons.IH [of "s # res"] by simp
    qed
  qed
qed

lemma renormalize:
  "list_all (\<lambda>r. r \<noteq> [] \<and> r \<noteq> ''.'') res \<Longrightarrow>
   normalizeSegs False acc (normalizeSegs True res xs) = normalizeSegs False acc (rev res @ xs)"
proof (induction xs arbitrary: res)
  case Nil
  then show ?case by simp
next
  case (Cons s ss)
  show ?case
  proof (cases "s = [] \<or> s = ''.''")
    case True
    then have "normalizeSegs False acc (rev res @ s # ss) = normalizeSegs False acc (rev res @ ss)"
      by (auto simp: normalizeSegs_append)
    then show ?thesis using True Cons by auto
  next
    case False
    show ?thesis
    proof (cases "s = ''..''")
      case True
      show ?thesis
      proof (cases res)
        case Nil
        then show ?thesis using True Cons.IH [of "[''..'']"] by simp
      next
        case (Cons r rs)
        show ?thesis
        proof (cases "r = ''..''")
          case rdd: True
          have "list_all (\<lambda>r. r \<noteq> [] \<and> r \<noteq> ''.'') (''..'' # res)" using Cons.prems by simp
          from Cons.IH [OF this] show ?thesis using True Cons rdd by simp
        next
          case rn: False
          have rs: "list_all (\<lambda>r. r \<noteq> [] \<and> r \<noteq> ''.'') rs" using Cons.prems Cons by simp
          have r: "r \<noteq> []" "r \<noteq> ''.''" using Cons.prems Cons by simp_all
          have "normalizeSegs False acc (rev res @ s # ss) =
                normalizeSegs False (rev (normalizeSegs False acc (rev rs))) (r # ''..'' # ss)"
            using Cons True normalizeSegs_append [of False acc "rev rs" "r # ''..'' # ss"] by simp
          also have "\<dots> = normalizeSegs False (rev (normalizeSegs False acc (rev rs))) ss"
            using r rn by simp
          also have "\<dots> = normalizeSegs False acc (rev rs @ ss)"
            by (simp add: normalizeSegs_append)
          finally show ?thesis using Cons.IH [OF rs] True Cons rn by simp
        qed
      qed
    next
      case F2: False
      then have "list_all (\<lambda>r. r \<noteq> [] \<and> r \<noteq> ''.'') (s # res)" using False Cons.prems by simp
      from Cons.IH [OF this] show ?thesis using False F2 by simp
    qed
  qed
qed

lemma staysInside_normalize:
  "staysInside (length upper) xs \<Longrightarrow> ''..'' \<notin> set upper \<Longrightarrow>
   normalizeSegs False (upper @ lower) xs = rev lower @ normalizeSegs False upper xs"
proof (induction xs arbitrary: upper)
  case Nil
  then show ?case by simp
next
  case (Cons s ss)
  show ?case
  proof (cases "s = [] \<or> s = ''.''")
    case True
    then show ?thesis using Cons by auto
  next
    case False
    show ?thesis
    proof (cases "s = ''..''")
      case True
      then obtain t ts where upper: "upper = t # ts" using Cons.prems(1) by (cases upper) auto
      then have "staysInside (length ts) ss" "''..'' \<notin> set ts" "t \<noteq> ''..''"
        using Cons.prems True by auto
      then show ?thesis using Cons.IH [of ts] True upper by simp
    next
      case F2: False
      then have "staysInside (length (s # upper)) ss" "''..'' \<notin> set (s # upper)"
        using False Cons.prems by auto
      then show ?thesis using Cons.IH [of "s # upper"] False F2 by simp
    qed
  qed
qed

lemma staysInside_no_dotdot: "''..'' \<notin> set xs \<Longrightarrow> staysInside d xs"
  by (induction xs arbitrary: d) auto

lemma resolve_relative:
  assumes "\<not> isAbsolute s" "s \<noteq> []" "isAbsolute cwd"
  shows "posix_resolve cwd [s] =
         CHR ''/'' # joinSlash (normalizeSegs False [] (splitSlash cwd @ splitSlash s))"
proof -
  from assms(3) have cwd: "cwd \<noteq> []" by (auto simp: isAbsolute_def)
  have "splitSlash (cwd @ ''/'' @ s @ ''/'') = splitSlash cwd @ splitSlash s @ [[]]"
    using splitSlash_append [of cwd "s @ ''/''"] splitSlash_append [of s "[]"] by simp
  then show ?thesis
    using assms cwd
    by (simp add: posix_resolve_def normalizeString_def normalizeSegs_snoc_empty
          normalizeSegs_append [of False "[]" "splitSlash cwd @ splitSlash s" "[[]]", simplified])
qed

lemma joinSlash_head:
  assumes "M \<noteq> []" "list_all (\<lambda>r. r \<noteq> [] \<and> r \<noteq> ''.'') M" "\<forall>w \<in> set M. CHR ''/'' \<notin> set w"
  shows "joinSlash M \<noteq> []" "\<not> isAbsolute (joinSlash M)" "\<not> isAbsolute (joinSlash M @ ''/'')"
proof -
  from assms obtain m ms where M: "M = m # ms" by (cases M) auto
  with assms obtain c cs where m: "m = c # cs" "c \<noteq> CHR ''/''" by (cases m) auto
  show "joinSlash M \<noteq> []" using M m by (cases ms) simp_all
  show "\<not> isAbsolute (joinSlash M)" using M m by (cases ms) (simp_all add: isAbsolute_def)
  show "\<not> isAbsolute (joinSlash M @ ''/'')" using M m by (cases ms) (simp_all add: isAbsolute_def)
qed

lemma normalize_relative:
  assumes "\<not> isAbsolute s" "s \<noteq> []"
  shows "posix_normalize s \<noteq> []"
    and "\<not> isAbsolute (posix_normalize s)"
    and "normalizeSegs False acc (splitSlash (posix_normalize s)) = normalizeSegs False acc (splitSlash s)"
proof -
  let ?M = "normalizeSegs True [] (splitSlash s)"
  have kept: "list_all (\<lambda>r. r \<noteq> [] \<and> r \<noteq> ''.'') ?M"
    by (rule normalizeSegs_kept) simp
  have noslash: "\<forall>w \<in> set ?M. CHR ''/'' \<notin> set w"
    using normalizeSegs_subset [of True "[]" "splitSlash s"] splitSlash_no_slash by auto
  have re: "normalizeSegs False acc ?M = normalizeSegs False acc (splitSlash s)"
    using renormalize [of "[]" acc "splitSlash s"] by simp
  have empty: "joinSlash ?M = [] \<Longrightarrow> ?M = []"
    using joinSlash_head(1) [OF _ kept noslash] by blast
  show "posix_normalize s \<noteq> []"
    using assms by (simp add: posix_normalize_def Let_def normalizeString_def)
  show "\<not> isAbsolute (posix_normalize s)"
  proof (cases "?M = []")
    case True
    then show ?thesis
      using assms by (simp add: posix_normalize_def Let_def normalizeString_def isAbsolute_def)
  next
    case False
    have "joinSlash ?M \<noteq> []" "\<not> isAbsolute (joinSlash ?M)" "\<not> isAbsolute (joinSlash ?M @ ''/'')"
      using joinSlash_head [OF False kept noslash] by blast+
    then show ?thesis
      using assms by (simp add: posix_normalize_def Let_def normalizeString_def)
  qed
  show "normalizeSegs False acc (splitSlash (posix_normalize s)) = normalizeSegs False acc (splitSlash s)"
  proof (cases "?M = []")
    case True
    then show ?thesis
      using assms re by (simp add: posix_normalize_def Let_def normalizeString_def)
  next
    case False
    then have sp: "splitSlash (joinSlash ?M) = ?M"
      using noslash by (simp add: splitSlash_joinSlash)
    have sp2: "splitSlash (joinSlash ?M @ ''/'') = ?M @ [[]]"
      using splitSlash_append [of "joinSlash ?M" "[]"] sp by simp
    have ne: "joinSlash ?M \<noteq> []" using joinSlash_head(1) [OF False kept noslash] .
    show ?thesis
      using assms re sp sp2 ne
      by (simp add: posix_normalize_def Let_def normalizeString_def normalizeSegs_snoc_empty)
  qed
qed

lemma resolve_any:
  assumes "s \<noteq> []" "isAbsolute cwd"
  shows "posix_resolve cwd [s] =
         CHR ''/'' # joinSlash (normalizeSegs False []
                                 ((if isAbsolute s then [] else splitSlash cwd) @ splitSlash s))"
  using assms resolve_absolute [of s cwd] resolve_relative [of s cwd] by simp

lemma resolve_normalize_any:
  assumes "s \<noteq> []" "isAbsolute cwd"
  shows "posix_resolve cwd [posix_normalize s] = posix_resolve cwd [s]"
proof (cases "isAbsolute s")
  case True
  then show ?thesis using normalize_absolute [OF True] by (simp add: resolve_absolute)
next
  case False
  have "normalizeSegs False [] (splitSlash cwd @ splitSlash (posix_normalize s)) =
        normalizeSegs False [] (splitSlash cwd @ splitSlash s)"
    using normalize_relative(3) [OF False assms(1)] by (simp add: normalizeSegs_append)
  then show ?thesis
    using normalize_relative(1,2) [OF False assms(1)] False assms
    by (simp add: resolve_relative)
qed

lemma root_segments_any:
  assumes "R \<noteq> []" "isAbsolute cwd"
  shows "segmentsOf (posix_resolve cwd [R]) =
         normalizeSegs False [] ((if isAbsolute R then [] else splitSlash cwd) @ splitSlash R)"
    and "cleanSegs (segmentsOf (posix_resolve cwd [R]))"
    and "\<forall>w \<in> set (segmentsOf (posix_resolve cwd [R])). CHR ''/'' \<notin> set w"
proof -
  let ?xs = "(if isAbsolute R then [] else splitSlash cwd) @ splitSlash R"
  let ?N = "normalizeSegs False [] ?xs"
  have c: "cleanSegs ?N" using normalizeSegs_clean_output [of "[]" ?xs] by (simp add: cleanSegs_def)
  have n: "\<forall>w \<in> set ?N. CHR ''/'' \<notin> set w"
    using normalizeSegs_subset [of False "[]" ?xs] splitSlash_no_slash by (auto split: if_splits)
  show s: "segmentsOf (posix_resolve cwd [R]) = ?N"
    using resolve_any [OF assms] split_rendered(3) [OF c n] by simp
  show "cleanSegs (segmentsOf (posix_resolve cwd [R]))" using c s by simp
  show "\<forall>w \<in> set (segmentsOf (posix_resolve cwd [R])). CHR ''/'' \<notin> set w" using n s by simp
qed

lemma resolve_join_any:
  assumes "R \<noteq> []" "isAbsolute cwd"
  shows "posix_resolve cwd [posix_join [R, p]] =
         CHR ''/'' # joinSlash (normalizeSegs False (rev (segmentsOf (posix_resolve cwd [R]))) (splitSlash p))"
proof -
  let ?base = "(if isAbsolute R then [] else splitSlash cwd)"
  have seg: "segmentsOf (posix_resolve cwd [R]) = normalizeSegs False [] (?base @ splitSlash R)"
    using assms by (rule root_segments_any(1))
  show ?thesis
  proof (cases "p = []")
    case True
    then have "posix_join [R, p] = posix_normalize R" using assms by (simp add: posix_join_def)
    then show ?thesis
      using resolve_normalize_any [OF assms] resolve_any [OF assms] True seg by simp
  next
    case False
    let ?s = "R @ CHR ''/'' # p"
    have s: "?s \<noteq> []" "isAbsolute ?s = isAbsolute R"
      using assms by (cases R; simp add: isAbsolute_def)+
    from False have "posix_join [R, p] = posix_normalize ?s"
      using assms by (simp add: posix_join_def)
    then have "posix_resolve cwd [posix_join [R, p]] = posix_resolve cwd [?s]"
      using resolve_normalize_any [OF s(1) assms(2)] by simp
    also have "\<dots> = CHR ''/'' # joinSlash (normalizeSegs False [] (?base @ splitSlash R @ splitSlash p))"
      using resolve_any [OF s(1) assms(2)] s(2) by (simp add: splitSlash_append)
    also have "normalizeSegs False [] (?base @ splitSlash R @ splitSlash p) =
        normalizeSegs False (rev (segmentsOf (posix_resolve cwd [R]))) (splitSlash p)"
      using normalizeSegs_append [of False "[]" "?base @ splitSlash R" "splitSlash p"] seg by simp
    finally show ?thesis .
  qed
qed

section \<open>The security check\<close>

text \<open>
  C1. The claim: the check rejects every path that resolves outside the root, comparing
  path segments, so that a sibling directory whose name extends the root's name is
  rejected. The code compares the strings with \<^verbatim>\<open>startsWith\<close>: with the root
  \<^verbatim>\<open>/root\<close>, the request \<^verbatim>\<open>../root-evil/secret.txt\<close> passes the check although its
  segments leave the root, and the folder endpoint lists the sibling directory.
\<close>

theorem securityCheck_accepts_sibling:
  "securityCheck ''/'' ''/root'' ''../root-evil/secret.txt'' = Inr ''/root-evil/secret.txt''
   \<and> \<not> prefix (segmentsOf ''/root'') (segmentsOf ''/root-evil/secret.txt'')
   \<and> apiFolders siblingFs ''/'' (Some ''/root'') ''../root-evil''
       = Inr (Structure [] [FileEntry ''secret.txt'' ''../root-evil/secret.txt''])"
  by code_simp

text \<open>
  C9, as stated: for every request path, the path handed to the containment check is
  never the literal absolute location the request names outside the root. It fails for
  a request that climbs with \<^verbatim>\<open>..\<close>: the check receives \<^verbatim>\<open>/etc/passwd\<close> itself (and
  rejects it).
\<close>

theorem join_dotdot_reaches_literal_location:
  "posix_resolve ''/'' [posix_join [''/root'', ''/../etc/passwd'']] = posix_resolve ''/'' [''/../etc/passwd'']
   \<and> posix_resolve ''/'' [''/../etc/passwd''] = ''/etc/passwd''
   \<and> \<not> prefix (segmentsOf (posix_resolve ''/'' [''/root''])) (segmentsOf ''/etc/passwd'')
   \<and> securityCheck ''/'' ''/root'' ''/../etc/passwd'' = Inl (403, ''Access denied'')"
  by code_simp

text \<open>
  C9, amended: for every configured root (not empty; absolute, or relative to the
  absolute working directory), the request path is read relative to the root: its
  segments are processed on top of the segments of the resolved root, and a leading
  slash changes nothing. Whenever the request never climbs above its starting point with
  \<^verbatim>\<open>..\<close>, in particular when it has no \<^verbatim>\<open>..\<close> segment, the resolved path is the
  root's segments followed by the normalised segments of the request: it lies inside the
  root, and it differs from the location the request names literally whenever that
  location is outside the root.
\<close>

theorem join_is_relative_to_root:
  assumes "R \<noteq> []" and "isAbsolute cwd"
  shows "posix_resolve cwd [posix_join [R, p]] =
           CHR ''/'' # joinSlash (normalizeSegs False (rev (segmentsOf (posix_resolve cwd [R]))) (splitSlash p))
       \<and> posix_resolve cwd [posix_join [R, CHR ''/'' # p]] = posix_resolve cwd [posix_join [R, p]]
       \<and> (staysInside 0 (splitSlash p) \<longrightarrow>
            segmentsOf (posix_resolve cwd [posix_join [R, p]]) =
              segmentsOf (posix_resolve cwd [R]) @ normalizeSegs False [] (splitSlash p)
            \<and> prefix (segmentsOf (posix_resolve cwd [R])) (segmentsOf (posix_resolve cwd [posix_join [R, p]]))
            \<and> (\<not> prefix (segmentsOf (posix_resolve cwd [R])) (segmentsOf (posix_resolve cwd [p])) \<longrightarrow>
                 posix_resolve cwd [posix_join [R, p]] \<noteq> posix_resolve cwd [p]))
       \<and> (''..'' \<notin> set (splitSlash p) \<longrightarrow>
            segmentsOf (posix_resolve cwd [posix_join [R, p]]) =
              segmentsOf (posix_resolve cwd [R]) @ filter (\<lambda>s. s \<noteq> [] \<and> s \<noteq> ''.'') (splitSlash p))"
proof -
  let ?root = "segmentsOf (posix_resolve cwd [R])"
  have general: "posix_resolve cwd [posix_join [R, q]] =
      CHR ''/'' # joinSlash (normalizeSegs False (rev ?root) (splitSlash q))" for q
    using assms by (rule resolve_join_any)
  have clean_root: "cleanSegs ?root" "\<forall>w \<in> set ?root. CHR ''/'' \<notin> set w"
    using root_segments_any(2,3) [OF assms] by blast+
  have inside: "segmentsOf (posix_resolve cwd [posix_join [R, p]]) =
      ?root @ normalizeSegs False [] (splitSlash p)"
    if stays: "staysInside 0 (splitSlash p)"
  proof -
    let ?rest = "normalizeSegs False [] (splitSlash p)"
    have n: "normalizeSegs False (rev ?root) (splitSlash p) = ?root @ ?rest"
      using staysInside_normalize [of "[]" "splitSlash p" "rev ?root"] stays by simp
    have "cleanSegs (?root @ ?rest)"
      using clean_root(1) canonical_segments(1) [of p] by (auto simp: cleanSegs_def)
    moreover have "\<forall>w \<in> set (?root @ ?rest). CHR ''/'' \<notin> set w"
      using clean_root(2) canonical_segments(2) [of p] by auto
    ultimately have "segmentsOf (CHR ''/'' # joinSlash (?root @ ?rest)) = ?root @ ?rest"
      by (rule split_rendered(3))
    then show ?thesis by (simp add: general n)
  qed
  have nodots: "segmentsOf (posix_resolve cwd [posix_join [R, p]]) =
      ?root @ filter (\<lambda>s. s \<noteq> [] \<and> s \<noteq> ''.'') (splitSlash p)"
    if "''..'' \<notin> set (splitSlash p)"
    using inside [OF staysInside_no_dotdot [OF that]] normalizeSegs_no_dotdot [OF that, of False "[]"]
    by simp
  have differs: "posix_resolve cwd [posix_join [R, p]] \<noteq> posix_resolve cwd [p]"
    if "staysInside 0 (splitSlash p)"
      "\<not> prefix ?root (segmentsOf (posix_resolve cwd [p]))"
    using inside [OF that(1)] that(2) by auto
  show ?thesis
    using general [of p] general [of "CHR ''/'' # p"] inside nodots differs by simp
qed

theorem join_is_relative_to_root_witness:
  "''data'' \<noteq> [] \<and> isAbsolute ''/srv'' \<and> staysInside 0 (splitSlash ''/etc/./x/../passwd'')
   \<and> segmentsOf (posix_resolve ''/srv'' [posix_join [''data'', ''/etc/./x/../passwd'']])
       = [''srv'', ''data'', ''etc'', ''passwd'']
   \<and> posix_resolve ''/srv'' [posix_join [''data'', ''/etc/./x/../passwd'']]
       \<noteq> posix_resolve ''/srv'' [''/etc/./x/../passwd'']"
proof -
  have ne: "''data'' \<noteq> []" by simp
  have a: "isAbsolute ''/srv''" by (simp add: isAbsolute_def)
  have s: "staysInside 0 (splitSlash ''/etc/./x/../passwd'')" by code_simp
  have r: "segmentsOf (posix_resolve ''/srv'' [''data'']) = [''srv'', ''data'']" by code_simp
  have f: "normalizeSegs False [] (splitSlash ''/etc/./x/../passwd'') = [''etc'', ''passwd'']"
    by code_simp
  have o: "\<not> prefix (segmentsOf (posix_resolve ''/srv'' [''data'']))
             (segmentsOf (posix_resolve ''/srv'' [''/etc/./x/../passwd'']))"
    by code_simp
  note inst = join_is_relative_to_root [OF ne a, of "''/etc/./x/../passwd''"]
  from inst s
  have "segmentsOf (posix_resolve ''/srv'' [posix_join [''data'', ''/etc/./x/../passwd'']]) =
        segmentsOf (posix_resolve ''/srv'' [''data'']) @
        normalizeSegs False [] (splitSlash ''/etc/./x/../passwd'')"
    by blast
  then have 1: "segmentsOf (posix_resolve ''/srv'' [posix_join [''data'', ''/etc/./x/../passwd'']])
       = [''srv'', ''data'', ''etc'', ''passwd'']"
    by (simp only: r f append.simps)
  from inst s o
  have 2: "posix_resolve ''/srv'' [posix_join [''data'', ''/etc/./x/../passwd'']]
       \<noteq> posix_resolve ''/srv'' [''/etc/./x/../passwd'']"
    by blast
  from ne a s 1 2 show ?thesis by blast
qed

section \<open>The folders-only walk and the home structure\<close>

text \<open>
  C10. The folders-only walk returns a list for every argument and never throws; when
  its directory cannot be read the list is empty. So with a configured root the home
  structure endpoint replies 200 with a list, the empty one when the root cannot be
  read.
\<close>

theorem getFolderStructure_total:
  "(\<exists>folders. getFolderStructure dir = Inr folders)
   \<and> ((\<exists>e. readdir dir = Inl e) \<longrightarrow> getFolderStructure dir = Inr [])
   \<and> (root \<noteq> [] \<longrightarrow>
        (\<exists>folders. apiHomeStructure fs (Some root) = Inr folders)
        \<and> ((\<exists>e. readdir (fs root) = Inl e) \<longrightarrow> apiHomeStructure fs (Some root) = Inr []))"
proof -
  have total: "\<exists>folders. getFolderStructure d = Inr folders" for d
    by (simp split: sum.splits)
  have unreadable: "getFolderStructure d = Inr []" if "\<exists>e. readdir d = Inl e" for d
    using that by auto
  show ?thesis
    using total [of dir] total [of "fs root"] unreadable [of dir] unreadable [of "fs root"]
    by (auto simp: apiHomeStructure_def simp del: getFolderStructure.simps)
qed

theorem getFolderStructure_total_witness:
  "readdir DeniedDir = Inl (Error ''EACCES'') \<and> getFolderStructure DeniedDir = Inr []
   \<and> ''/srv'' \<noteq> [] \<and> apiHomeStructure (\<lambda>p. Gone False) (Some ''/srv'') = Inr []"
proof -
  have e: "\<exists>e. readdir DeniedDir = Inl e" by simp
  have e2: "\<exists>e. readdir ((\<lambda>p. Gone False) ''/srv'') = Inl e" by simp
  have ne: "''/srv'' \<noteq> []" by simp
  from getFolderStructure_total [of DeniedDir "''/srv''" "\<lambda>p. Gone False"] e e2 ne
  have "getFolderStructure DeniedDir = Inr [] \<and> apiHomeStructure (\<lambda>p. Gone False) (Some ''/srv'') = Inr []"
    by blast
  then show ?thesis by simp
qed

section \<open>Setting the root\<close>




section \<open>The depth-limited walk: order and exclusions\<close>

lemma set_insertBy: "set (insertBy cmp x ys) = insert x (set ys)"
  by (induction ys) auto

lemma set_js_sort: "set (js_sort cmp xs) = set xs"
  by (induction xs) (auto simp: js_sort_def set_insertBy)

lemma sorted_insertBy:
  assumes total: "\<And>a b. cmp a b \<le> 0 \<or> cmp b a \<le> 0"
    and trans: "\<And>a b c. cmp a b \<le> 0 \<Longrightarrow> cmp b c \<le> 0 \<Longrightarrow> cmp a c \<le> 0"
  shows "sorted_wrt (\<lambda>a b. cmp a b \<le> 0) ys \<Longrightarrow> sorted_wrt (\<lambda>a b. cmp a b \<le> 0) (insertBy cmp x ys)"
proof (induction ys)
  case Nil
  then show ?case by simp
next
  case (Cons y ys)
  show ?case
  proof (cases "cmp x y \<le> 0")
    case True
    then have "\<forall>z \<in> set ys. cmp x z \<le> 0" using Cons.prems trans by auto
    then show ?thesis using True Cons.prems by simp
  next
    case False
    then have "cmp y x \<le> 0" using total [of x y] by simp
    then show ?thesis using False Cons by (auto simp: set_insertBy)
  qed
qed

lemma sorted_js_sort:
  assumes "\<And>a b. cmp a b \<le> 0 \<or> cmp b a \<le> 0"
    and "\<And>a b c. cmp a b \<le> 0 \<Longrightarrow> cmp b c \<le> 0 \<Longrightarrow> cmp a c \<le> 0"
  shows "sorted_wrt (\<lambda>a b. cmp a b \<le> 0) (js_sort cmp xs)"
proof (induction xs)
  case Nil
  then show ?case by (simp add: js_sort_def)
next
  case (Cons x xs)
  have "js_sort cmp (x # xs) = insertBy cmp x (js_sort cmp xs)" by (simp add: js_sort_def)
  then show ?case using sorted_insertBy [of cmp, OF assms Cons] by simp
qed

lemma compareItems_total:
  assumes "\<forall>a b. lc a b \<le> 0 \<or> lc b a \<le> 0"
  shows "compareItems lc a b \<le> 0 \<or> compareItems lc b a \<le> 0"
  using assms by (cases a; cases b) (auto simp: compareItems_def)

lemma compareItems_trans:
  assumes "\<forall>a b c. lc a b \<le> 0 \<longrightarrow> lc b c \<le> 0 \<longrightarrow> lc a c \<le> 0"
    and "compareItems lc a b \<le> 0" "compareItems lc b c \<le> 0"
  shows "compareItems lc a c \<le> 0"
proof -
  from assms(1) have t: "lc x y \<le> 0 \<Longrightarrow> lc y z \<le> 0 \<Longrightarrow> lc x z \<le> 0" for x y z by blast
  show ?thesis
    using assms(2,3) t [of "itemName a" "itemName b" "itemName c"]
    by (cases a; cases b; cases c) (simp_all add: compareItems_def)
qed

lemma compareItems_order:
  "compareItems lc a b \<le> 0 \<Longrightarrow>
   (itemTypeOf a = fileType \<longrightarrow> itemTypeOf b = fileType)
   \<and> (itemTypeOf a = itemTypeOf b \<longrightarrow> lc (itemName a) (itemName b) \<le> 0)"
  by (cases a; cases b) (auto simp: compareItems_def)

lemma js_sort_foldersFirst:
  assumes "\<forall>a b. lc a b \<le> 0 \<or> lc b a \<le> 0"
    and "\<forall>a b c. lc a b \<le> 0 \<longrightarrow> lc b c \<le> 0 \<longrightarrow> lc a c \<le> 0"
  shows "foldersFirstByName lc (js_sort (compareItems lc) xs)"
proof -
  have "sorted_wrt (\<lambda>a b. compareItems lc a b \<le> 0) (js_sort (compareItems lc) xs)"
    using compareItems_total [OF assms(1)] compareItems_trans [OF assms(2)]
    by (rule sorted_js_sort)
  then show ?thesis
    unfolding foldersFirstByName_def
    by (rule sorted_wrt_mono_rel [rotated]) (use compareItems_order in blast)
qed

lemma itemLoop_invariant:
  assumes fileCase: "\<And>n p s. \<not> skipped n \<Longrightarrow> G (FileItem n p s)"
    and folderCase: "\<And>n p ch. \<not> skipped n \<Longrightarrow> ch = [] \<or> Gd ch \<Longrightarrow> G (FolderItem n p ch)"
  shows "itemLoop lc dirPath maxDepth currentDepth entries acc = Inr res \<Longrightarrow>
   \<forall>i \<in> set acc. G i \<Longrightarrow>
   (\<And>e children. e \<in> set entries \<Longrightarrow>
      getFolderStructure_depth lc (snd e) (posix_join [dirPath, fst e]) maxDepth (currentDepth + 1) = Some children \<Longrightarrow>
      Gd children) \<Longrightarrow>
   \<forall>i \<in> set res. G i"
proof (induction entries arbitrary: acc)
  case Nil
  then show ?case by simp
next
  case (Cons entry rest)
  have sub: "Gd children"
    if "e \<in> set rest"
      "getFolderStructure_depth lc (snd e) (posix_join [dirPath, fst e]) maxDepth (currentDepth + 1) = Some children"
    for e children
    using Cons.prems(3) [of e children] that by simp
  show ?case
  proof (cases "skipped (fst entry)")
    case True
    then have "itemLoop lc dirPath maxDepth currentDepth rest acc = Inr res"
      using Cons.prems(1) by (simp del: getFolderStructure_depth.simps)
    then show ?thesis using Cons.prems(2) sub by (rule Cons.IH)
  next
    case False
    then obtain st where st: "stat (snd entry) = Inr st"
      using Cons.prems(1) by (cases "stat (snd entry)") (simp_all del: getFolderStructure_depth.simps)
    let ?new = "if stIsDirectory st
       then FolderItem (fst entry) (posix_join [dirPath, fst entry])
              (case getFolderStructure_depth lc (snd entry) (posix_join [dirPath, fst entry]) maxDepth (currentDepth + 1) of
                 None \<Rightarrow> [] | Some children \<Rightarrow> children)
       else FileItem (fst entry) (posix_join [dirPath, fst entry]) (stSize st)"
    have loop: "itemLoop lc dirPath maxDepth currentDepth rest (acc @ [?new]) = Inr res"
      using Cons.prems(1) False st by (simp del: getFolderStructure_depth.simps split: if_splits)
    have new_ok: "G ?new"
    proof (cases "getFolderStructure_depth lc (snd entry) (posix_join [dirPath, fst entry]) maxDepth (currentDepth + 1)")
      case None
      then show ?thesis using False fileCase folderCase by (simp del: getFolderStructure_depth.simps)
    next
      case (Some children)
      then have "Gd children"
        using Cons.prems(3) [of entry children] by simp
      then show ?thesis using False Some fileCase folderCase by (simp del: getFolderStructure_depth.simps)
    qed
    have "\<forall>i \<in> set (acc @ [?new]). G i"
      using new_ok Cons.prems(2) by auto
    with loop show ?thesis using sub by (rule Cons.IH)
  qed
qed

lemma depth_invariant:
  assumes fileCase: "\<And>n p s. \<not> skipped n \<Longrightarrow> G (FileItem n p s)"
    and folderCase: "\<And>n p ch. \<not> skipped n \<Longrightarrow> ch = [] \<or> Gd ch \<Longrightarrow> G (FolderItem n p ch)"
    and sortCase: "\<And>res. \<forall>i \<in> set res. G i \<Longrightarrow> Gd (js_sort (compareItems lc) res)"
  shows "getFolderStructure_depth lc dir dirPath maxDepth currentDepth = Some items \<Longrightarrow> Gd items"
proof (induction "maxDepth - currentDepth" arbitrary: dir dirPath currentDepth items)
  case 0
  then show ?case by simp
next
  case (Suc k)
  from Suc.prems obtain entries res where
    rd: "readdir dir = Inr entries" and
    loop: "itemLoop lc dirPath maxDepth currentDepth entries [] = Inr res" and
    items: "items = js_sort (compareItems lc) res"
    by (auto split: if_splits sum.splits)
  have deeper: "k = maxDepth - (currentDepth + 1)" using Suc.hyps(2) by simp
  have "\<forall>i \<in> set res. G i"
    using itemLoop_invariant [of G Gd, OF fileCase folderCase loop] Suc.hyps(1) [OF deeper] by simp
  then show ?case using sortCase by (simp add: items)
qed

lemma itemLoop_filter:
  "itemLoop lc dirPath maxDepth currentDepth (filter (\<lambda>e. \<not> skipped (fst e)) entries) acc =
   itemLoop lc dirPath maxDepth currentDepth entries acc"
  by (induction entries arbitrary: acc) (simp_all del: getFolderStructure_depth.simps split: sum.splits)

lemma depth_names:
  assumes "getFolderStructure_depth lc dir dirPath maxDepth currentDepth = Some items"
  shows "\<forall>i \<in> set items. \<forall>n \<in> set (allNames i). \<not> skipped n"
  by (rule depth_invariant [where G = "\<lambda>i. \<forall>n \<in> set (allNames i). \<not> skipped n"
        and Gd = "\<lambda>l. \<forall>i \<in> set l. \<forall>n \<in> set (allNames i). \<not> skipped n", OF _ _ _ assms])
     (auto simp: set_js_sort)

lemma foldersFirstByName_Nil: "foldersFirstByName lc []"
  by (simp add: foldersFirstByName_def)

lemma depth_sorted:
  assumes "\<forall>a b. lc a b \<le> 0 \<or> lc b a \<le> 0"
    and "\<forall>a b c. lc a b \<le> 0 \<longrightarrow> lc b c \<le> 0 \<longrightarrow> lc a c \<le> 0"
    and "getFolderStructure_depth lc dir dirPath maxDepth currentDepth = Some items"
  shows "foldersFirstByName lc items \<and> (\<forall>i \<in> set items. \<forall>l \<in> set (listingsOf i). foldersFirstByName lc l)"
proof (rule depth_invariant [where G = "\<lambda>i. \<forall>l \<in> set (listingsOf i). foldersFirstByName lc l"
        and Gd = "\<lambda>l. foldersFirstByName lc l \<and> (\<forall>i \<in> set l. \<forall>l \<in> set (listingsOf i). foldersFirstByName lc l)",
        OF _ _ _ assms(3)])
  show "\<forall>l \<in> set (listingsOf (FileItem n p s)). foldersFirstByName lc l" for n p s
    by simp
  show "\<forall>l \<in> set (listingsOf (FolderItem n p ch)). foldersFirstByName lc l"
    if "ch = [] \<or> foldersFirstByName lc ch \<and> (\<forall>i \<in> set ch. \<forall>l \<in> set (listingsOf i). foldersFirstByName lc l)"
    for n p ch
    using that by (auto simp: foldersFirstByName_Nil)
  show "foldersFirstByName lc (js_sort (compareItems lc) res) \<and>
        (\<forall>i \<in> set (js_sort (compareItems lc) res). \<forall>l \<in> set (listingsOf i). foldersFirstByName lc l)"
    if "\<forall>i \<in> set res. \<forall>l \<in> set (listingsOf i). foldersFirstByName lc l" for res
    using that js_sort_foldersFirst [OF assms(1,2)] by (simp add: set_js_sort)
qed

lemma codeUnitCompare_total: "codeUnitCompare a b \<le> 0 \<or> codeUnitCompare b a \<le> 0"
  by (induction a b rule: codeUnitCompare.induct) auto



lemma codeUnitCompare_trans:
  "codeUnitCompare a b \<le> 0 \<Longrightarrow> codeUnitCompare b c \<le> 0 \<Longrightarrow> codeUnitCompare a c \<le> 0"
proof (induction a arbitrary: b c)
  case Nil
  then show ?case by (cases c) simp_all
next
  case (Cons x xs)
  from Cons.prems(1) obtain y ys where b: "b = y # ys" by (cases b) simp_all
  from Cons.prems(2) b obtain z zs where c: "c = z # zs" by (cases c) simp_all
  let ?x = "of_char x :: nat" and ?y = "of_char y :: nat" and ?z = "of_char z :: nat"
  from Cons.prems(1) b have xy: "?x < ?y \<or> (?x = ?y \<and> codeUnitCompare xs ys \<le> 0)"
    by (simp split: if_splits)
  from Cons.prems(2) b c have yz: "?y < ?z \<or> (?y = ?z \<and> codeUnitCompare ys zs \<le> 0)"
    by (simp split: if_splits)
  from xy yz have "?x < ?z \<or> (?x = ?z \<and> codeUnitCompare xs zs \<le> 0)"
    using Cons.IH [of ys zs] by auto
  then show ?case by (auto simp: c)
qed

lemma getFolderStructure_returns: "\<exists>l. getFolderStructure d = Inr l"
  by (simp split: sum.splits)

lemma folderLoop_eq:
  "folderLoop items acc =
     Inr (acc @ map (\<lambda>e. Folder (fst e) (projr (getFolderStructure (snd e))))
                   (filter (\<lambda>e. isDirectory (snd e)) items))"
proof (induction items arbitrary: acc)
  case Nil
  then show ?case by simp
next
  case (Cons item rest)
  obtain l where l: "getFolderStructure (snd item) = Inr l"
    using getFolderStructure_returns by blast
  show ?case
    using Cons.IH l by (simp del: getFolderStructure.simps)
qed

lemma getFolderStructure_eq:
  "getFolderStructure dir =
     Inr (case readdir dir of
            Inl e \<Rightarrow> []
          | Inr items \<Rightarrow> map (\<lambda>e. Folder (fst e) (projr (getFolderStructure (snd e))))
                            (filter (\<lambda>e. isDirectory (snd e)) items))"
proof (cases "readdir dir")
  case (Inl e)
  then show ?thesis by simp
next
  case (Inr items)
  have "getFolderStructure dir =
        (case folderLoop items [] of Inl error \<Rightarrow> Inr [] | Inr folders \<Rightarrow> Inr folders)"
    using Inr by simp
  then show ?thesis
    using Inr by (simp only: folderLoop_eq sum.case append_Nil)
qed

lemma structureLoop_eq:
  "structureLoop folderPath items s =
     Inr (Structure
            (structFolders s @
               map (\<lambda>e. FolderEntry (fst e) (replaceBackslashes (posix_join [folderPath, fst e]))
                          (projr (getFolderStructure (snd e))))
                   (filter (\<lambda>e. isDirectory (snd e)) items))
            (structFiles s @
               map (\<lambda>e. FileEntry (fst e) (replaceBackslashes (posix_join [folderPath, fst e])))
                   (filter (\<lambda>e. \<not> isDirectory (snd e)) items)))"
proof (induction items arbitrary: s)
  case Nil
  then show ?case by simp
next
  case (Cons item rest)
  obtain l where l: "getFolderStructure (snd item) = Inr l"
    using getFolderStructure_returns by blast
  show ?case
    using Cons.IH l by (simp del: getFolderStructure.simps)
qed

lemma sorted_names_filter:
  assumes "sorted_wrt (\<lambda>a b. codeUnitCompare a b < 0) (map fst items)"
  shows "sorted_wrt (\<lambda>a b. codeUnitCompare a b < 0) (map fst (filter P items))"
proof -
  have "sorted_wrt (\<lambda>a b. codeUnitCompare (fst a) (fst b) < 0) items"
    using assms by (simp add: sorted_wrt_map)
  then have "sorted_wrt (\<lambda>a b. codeUnitCompare (fst a) (fst b) < 0) (filter P items)"
    by (rule sorted_wrt_filter)
  then show ?thesis by (simp add: sorted_wrt_map)
qed

lemma getFolderStructure_ordered:
  "readdirOrdered dir \<Longrightarrow> getFolderStructure dir = Inr l \<Longrightarrow>
   sorted_wrt (\<lambda>a b. codeUnitCompare (folderName a) (folderName b) < 0) l \<and> list_all foldersByName l"
proof (induction dir arbitrary: l rule: fsnode.induct)
  case (DirNode items)
  have l: "l = map (\<lambda>e. Folder (fst e) (projr (getFolderStructure (snd e))))
                 (filter (\<lambda>e. isDirectory (snd e)) items)"
    using DirNode.prems(2) getFolderStructure_eq [of "DirNode items"] by simp
  have ord: "sorted_wrt (\<lambda>a b. codeUnitCompare a b < 0) (map fst items)"
    and sub: "list_all (\<lambda>e. readdirOrdered (snd e)) items"
    using DirNode.prems(1) by simp_all
  have "sorted_wrt (\<lambda>a b. codeUnitCompare a b < 0) (map folderName l)"
    using sorted_names_filter [OF ord, of "\<lambda>e. isDirectory (snd e)"] by (simp add: l comp_def)
  then have top: "sorted_wrt (\<lambda>a b. codeUnitCompare (folderName a) (folderName b) < 0) l"
    by (simp add: sorted_wrt_map)
  have deep: "foldersByName (Folder (fst e) (projr (getFolderStructure (snd e))))"
    if "e \<in> set items" for e
  proof -
    obtain k where k: "getFolderStructure (snd e) = Inr k"
      using getFolderStructure_returns by blast
    have "readdirOrdered (snd e)" using sub that by (simp add: list_all_iff)
    moreover have "snd e \<in> Basic_BNFs.snds e" by (cases e) simp
    ultimately have "sorted_wrt (\<lambda>a b. codeUnitCompare (folderName a) (folderName b) < 0) k
        \<and> list_all foldersByName k"
      using DirNode.IH [OF that _ _ k] by blast
    then show ?thesis using k by (simp del: getFolderStructure.simps)
  qed
  have "list_all foldersByName l"
    using deep by (auto simp: l list_all_iff simp del: getFolderStructure.simps)
  with top show ?case by blast
qed (simp_all)

lemma apiFolders_eq:
  assumes "root \<noteq> []" "securityCheck cwd root folderPath = Inr fullPath"
    "readdir (fs fullPath) = Inr entries"
  shows "apiFolders fs cwd (Some root) folderPath =
     Inr (Structure
            (map (\<lambda>e. FolderEntry (fst e) (replaceBackslashes (posix_join [folderPath, fst e]))
                          (projr (getFolderStructure (snd e))))
                 (filter (\<lambda>e. isDirectory (snd e)) entries))
            (map (\<lambda>e. FileEntry (fst e) (replaceBackslashes (posix_join [folderPath, fst e])))
                 (filter (\<lambda>e. \<not> isDirectory (snd e)) entries)))"
  using assms by (simp add: apiFolders_def structureLoop_eq)

lemma readdirOrdered_entries:
  assumes "readdir d = Inr entries" "readdirOrdered d"
  shows "sorted_wrt (\<lambda>a b. codeUnitCompare a b < 0) (map fst entries)"
    and "list_all (\<lambda>e. readdirOrdered (snd e)) entries"
  using assms by (cases d; simp)+

text \<open>
  C5. Every enumerated directory is listed folders first, each group in lexicographic
  order of the names. The depth-limited walk of folder_structure_app.js sorts each
  listing, at every depth, with the folders before the files and each group by name for
  the comparison \<open>lc\<close> of \<^verbatim>\<open>localeCompare\<close> (total and transitive). The folder endpoint
  of file_explorer_app.js answers with the folders in one list and the files in another,
  each in the order of \<^verbatim>\<open>readdir\<close>, which is ascending by name (\<open>readdirOrdered\<close>), and
  so are the folders below each folder. A directory with the folders A, B and the file Z
  comes back as A, B then Z from both.
\<close>

theorem listings_folders_first_by_name:
  assumes "\<forall>a b. lc a b \<le> 0 \<or> lc b a \<le> 0"
    and "\<forall>a b c. lc a b \<le> 0 \<longrightarrow> lc b c \<le> 0 \<longrightarrow> lc a c \<le> 0"
  shows "(getFolderStructure_depth lc dir dirPath maxDepth currentDepth = Some items \<longrightarrow>
            (\<forall>l \<in> set (items # concat (map listingsOf items)). foldersFirstByName lc l))
       \<and> (root \<noteq> [] \<and> securityCheck cwd root folderPath = Inr fullPath
            \<and> readdir (fs fullPath) = Inr entries \<longrightarrow>
            (\<exists>s. apiFolders fs cwd (Some root) folderPath = Inr s
               \<and> map entryName (structFolders s) = map fst (filter (\<lambda>e. isDirectory (snd e)) entries)
               \<and> map fileEntryName (structFiles s) = map fst (filter (\<lambda>e. \<not> isDirectory (snd e)) entries)
               \<and> (readdirOrdered (fs fullPath) \<longrightarrow>
                    sorted_wrt (\<lambda>a b. codeUnitCompare a b < 0) (map entryName (structFolders s))
                    \<and> sorted_wrt (\<lambda>a b. codeUnitCompare a b < 0) (map fileEntryName (structFiles s))
                    \<and> list_all (\<lambda>f. foldersByName (Folder (entryName f) (entrySubFolders f)))
                         (structFolders s))))
       \<and> (lc ''A'' ''B'' \<le> 0 \<longrightarrow>
            getFolderStructure_depth lc
              (DirNode [(''A'', DirNode []), (''B'', DirNode []), (''Z'', FileNode sz)]) dirPath 3 0
            = Some [FolderItem ''A'' (posix_join [dirPath, ''A'']) [],
                    FolderItem ''B'' (posix_join [dirPath, ''B'']) [],
                    FileItem ''Z'' (posix_join [dirPath, ''Z'']) sz])
       \<and> (fs ''/root'' = DirNode [(''A'', DirNode []), (''B'', DirNode []), (''Z'', FileNode sz)] \<longrightarrow>
            apiFolders fs ''/'' (Some ''/root'') ''''
            = Inr (Structure [FolderEntry ''A'' ''A'' [], FolderEntry ''B'' ''B'' []]
                             [FileEntry ''Z'' ''Z'']))"
proof -
  have depth: "\<forall>l \<in> set (items # concat (map listingsOf items)). foldersFirstByName lc l"
    if "getFolderStructure_depth lc dir dirPath maxDepth currentDepth = Some items"
    using depth_sorted [OF assms that] by auto
  have flat: "\<exists>s. apiFolders fs cwd (Some root) folderPath = Inr s
               \<and> map entryName (structFolders s) = map fst (filter (\<lambda>e. isDirectory (snd e)) entries)
               \<and> map fileEntryName (structFiles s) = map fst (filter (\<lambda>e. \<not> isDirectory (snd e)) entries)
               \<and> (readdirOrdered (fs fullPath) \<longrightarrow>
                    sorted_wrt (\<lambda>a b. codeUnitCompare a b < 0) (map entryName (structFolders s))
                    \<and> sorted_wrt (\<lambda>a b. codeUnitCompare a b < 0) (map fileEntryName (structFiles s))
                    \<and> list_all (\<lambda>f. foldersByName (Folder (entryName f) (entrySubFolders f)))
                         (structFolders s))"
    if h: "root \<noteq> []" "securityCheck cwd root folderPath = Inr fullPath"
      "readdir (fs fullPath) = Inr entries"
  proof -
    let ?s = "Structure
            (map (\<lambda>e. FolderEntry (fst e) (replaceBackslashes (posix_join [folderPath, fst e]))
                          (projr (getFolderStructure (snd e))))
                 (filter (\<lambda>e. isDirectory (snd e)) entries))
            (map (\<lambda>e. FileEntry (fst e) (replaceBackslashes (posix_join [folderPath, fst e])))
                 (filter (\<lambda>e. \<not> isDirectory (snd e)) entries))"
    have eq: "apiFolders fs cwd (Some root) folderPath = Inr ?s"
      using h by (rule apiFolders_eq)
    have names: "map entryName (structFolders ?s) = map fst (filter (\<lambda>e. isDirectory (snd e)) entries)"
      "map fileEntryName (structFiles ?s) = map fst (filter (\<lambda>e. \<not> isDirectory (snd e)) entries)"
      by (simp_all add: comp_def del: getFolderStructure.simps)
    have ordered: "sorted_wrt (\<lambda>a b. codeUnitCompare a b < 0) (map entryName (structFolders ?s))
                    \<and> sorted_wrt (\<lambda>a b. codeUnitCompare a b < 0) (map fileEntryName (structFiles ?s))
                    \<and> list_all (\<lambda>f. foldersByName (Folder (entryName f) (entrySubFolders f)))
                         (structFolders ?s)"
      if o: "readdirOrdered (fs fullPath)"
    proof -
      note e = readdirOrdered_entries [OF h(3) o]
      have deep: "foldersByName (Folder (fst e) (projr (getFolderStructure (snd e))))"
        if "e \<in> set entries" for e
      proof -
        obtain k where k: "getFolderStructure (snd e) = Inr k"
          using getFolderStructure_returns by blast
        have "readdirOrdered (snd e)" using e(2) that by (simp add: list_all_iff)
        from getFolderStructure_ordered [OF this k] show ?thesis
          using k by (simp del: getFolderStructure.simps)
      qed
      have "list_all (\<lambda>f. foldersByName (Folder (entryName f) (entrySubFolders f))) (structFolders ?s)"
        using deep by (auto simp: list_all_iff simp del: getFolderStructure.simps foldersByName.simps)
      then show ?thesis
        using sorted_names_filter [OF e(1)] by (simp only: names)
    qed
    from eq names ordered show ?thesis by (intro exI [of _ ?s] conjI impI) blast+
  qed
  have exDepth: "getFolderStructure_depth lc
              (DirNode [(''A'', DirNode []), (''B'', DirNode []), (''Z'', FileNode sz)]) dirPath 3 0
            = Some [FolderItem ''A'' (posix_join [dirPath, ''A'']) [],
                    FolderItem ''B'' (posix_join [dirPath, ''B'']) [],
                    FileItem ''Z'' (posix_join [dirPath, ''Z'']) sz]"
    if "lc ''A'' ''B'' \<le> 0"
    using that by (simp add: skipped_def startsWith_def js_sort_def compareItems_def)
  have sc: "securityCheck ''/'' ''/root'' '''' = Inr ''/root''" by code_simp
  have jn: "posix_join ['''', ''A''] = ''A''" "posix_join ['''', ''B''] = ''B''"
    "posix_join ['''', ''Z''] = ''Z''" by code_simp+
  have exFlat: "apiFolders fs ''/'' (Some ''/root'') ''''
            = Inr (Structure [FolderEntry ''A'' ''A'' [], FolderEntry ''B'' ''B'' []]
                             [FileEntry ''Z'' ''Z''])"
    if "fs ''/root'' = DirNode [(''A'', DirNode []), (''B'', DirNode []), (''Z'', FileNode sz)]"
    using that by (simp add: apiFolders_def sc jn replaceBackslashes_def)
  from depth flat exDepth exFlat show ?thesis by blast
qed

theorem listings_folders_first_by_name_witness:
  "getFolderStructure_depth codeUnitCompare mixedDir ''/d'' 3 0
   = Some [FolderItem ''B'' ''/d/B'' [FolderItem ''x'' ''/d/B/x'' [], FileItem ''y'' ''/d/B/y'' 2],
           FolderItem ''a'' ''/d/a'' [],
           FileItem ''A.txt'' ''/d/A.txt'' 1]
   \<and> foldersFirstByName codeUnitCompare
        [FolderItem ''B'' ''/d/B'' [FolderItem ''x'' ''/d/B/x'' [], FileItem ''y'' ''/d/B/y'' 2],
         FolderItem ''a'' ''/d/a'' [],
         FileItem ''A.txt'' ''/d/A.txt'' 1]
   \<and> readdirOrdered (mixedFs ''/root'')
   \<and> apiFolders mixedFs ''/'' (Some ''/root'') ''''
       = Inr (Structure [FolderEntry ''B'' ''B'' [Folder ''x'' []], FolderEntry ''a'' ''a'' []]
                        [FileEntry ''A.txt'' ''A.txt''])
   \<and> sorted_wrt (\<lambda>a b. codeUnitCompare a b < 0)
        (map entryName (structFolders (projr (apiFolders mixedFs ''/'' (Some ''/root'') ''''))))"
proof -
  have tot: "\<forall>a b. codeUnitCompare a b \<le> 0 \<or> codeUnitCompare b a \<le> 0"
    using codeUnitCompare_total by blast
  have tr: "\<forall>a b c. codeUnitCompare a b \<le> 0 \<longrightarrow> codeUnitCompare b c \<le> 0 \<longrightarrow> codeUnitCompare a c \<le> 0"
    using codeUnitCompare_trans by blast
  have ev: "getFolderStructure_depth codeUnitCompare mixedDir ''/d'' 3 0
   = Some [FolderItem ''B'' ''/d/B'' [FolderItem ''x'' ''/d/B/x'' [], FileItem ''y'' ''/d/B/y'' 2],
           FolderItem ''a'' ''/d/a'' [],
           FileItem ''A.txt'' ''/d/A.txt'' 1]"
    by code_simp
  have ne: "''/root'' \<noteq> []" by simp
  have sc: "securityCheck ''/'' ''/root'' '''' = Inr ''/root''" by code_simp
  have rd: "readdir (mixedFs ''/root'') =
      Inr [(''A.txt'', FileNode 1), (''B'', DirNode [(''x'', DirNode []), (''y'', FileNode 2)]),
           (''a'', DirNode [])]"
    by (simp add: mixedFs_def mixedDir_def)
  have ord: "readdirOrdered (mixedFs ''/root'')" by code_simp
  have api: "apiFolders mixedFs ''/'' (Some ''/root'') ''''
       = Inr (Structure [FolderEntry ''B'' ''B'' [Folder ''x'' []], FolderEntry ''a'' ''a'' []]
                        [FileEntry ''A.txt'' ''A.txt''])"
    by code_simp
  note inst = listings_folders_first_by_name [OF tot tr,
      of mixedDir "''/d''" 3 0
         "[FolderItem ''B'' ''/d/B'' [FolderItem ''x'' ''/d/B/x'' [], FileItem ''y'' ''/d/B/y'' 2],
           FolderItem ''a'' ''/d/a'' [], FileItem ''A.txt'' ''/d/A.txt'' 1]"
         "''/root''" "''/''" "''''" "''/root''" mixedFs]
  from inst ev
  have 1: "foldersFirstByName codeUnitCompare
        [FolderItem ''B'' ''/d/B'' [FolderItem ''x'' ''/d/B/x'' [], FileItem ''y'' ''/d/B/y'' 2],
         FolderItem ''a'' ''/d/a'' [],
         FileItem ''A.txt'' ''/d/A.txt'' 1]"
    by simp
  from inst ne sc rd ord
  have "\<exists>s. apiFolders mixedFs ''/'' (Some ''/root'') '''' = Inr s
          \<and> sorted_wrt (\<lambda>a b. codeUnitCompare a b < 0) (map entryName (structFolders s))"
    by blast
  then have 2: "sorted_wrt (\<lambda>a b. codeUnitCompare a b < 0)
        (map entryName (structFolders (projr (apiFolders mixedFs ''/'' (Some ''/root'') ''''))))"
    by auto
  from ev 1 ord api 2 show ?thesis by blast
qed

text \<open>
  C6, as stated: no tree returned by an enumerator has a node whose name starts with a
  dot or is a build or dependency directory. The folders-only walk has no exclusion.
\<close>

theorem getFolderStructure_lists_hidden:
  "getFolderStructure (DirNode [(''.git'', DirNode []), (''node_modules'', DirNode [(''dist'', DirNode [])])])
   = Inr [Folder ''.git'' [], Folder ''node_modules'' [Folder ''dist'' []]]"
  by code_simp

text \<open>
  C6, amended: in every tree returned by the depth-limited walk of
  folder_structure_app.js, no node at any depth has a name that starts with a dot or is
  one of node_modules, .git, dist, build; the skipped entries are never looked at: the
  result is the one for the directory without them.
\<close>

theorem getFolderStructure_depth_exclusions:
  "(getFolderStructure_depth lc dir dirPath maxDepth currentDepth = Some items \<longrightarrow>
      (\<forall>i \<in> set items. \<forall>n \<in> set (allNames i).
         \<not> startsWith n ''.'' \<and> n \<notin> set [''node_modules'', ''.git'', ''dist'', ''build'']))
   \<and> getFolderStructure_depth lc (DirNode entries) dirPath maxDepth currentDepth
     = getFolderStructure_depth lc (DirNode (filter (\<lambda>e. \<not> skipped (fst e)) entries)) dirPath maxDepth currentDepth"
proof -
  have "\<forall>i \<in> set items. \<forall>n \<in> set (allNames i).
         \<not> startsWith n ''.'' \<and> n \<notin> set [''node_modules'', ''.git'', ''dist'', ''build'']"
    if "getFolderStructure_depth lc dir dirPath maxDepth currentDepth = Some items"
    using depth_names [OF that] unfolding skipped_def by blast
  moreover have "getFolderStructure_depth lc (DirNode entries) dirPath maxDepth currentDepth
     = getFolderStructure_depth lc (DirNode (filter (\<lambda>e. \<not> skipped (fst e)) entries)) dirPath maxDepth currentDepth"
    by (simp add: itemLoop_filter)
  ultimately show ?thesis by blast
qed

theorem getFolderStructure_depth_exclusions_witness:
  "getFolderStructure_depth codeUnitCompare
      (DirNode [(''.git'', Gone True), (''node_modules'', DirNode [(''express'', DirNode [])]),
                (''src'', DirNode [(''.env'', FileNode 9), (''app.js'', FileNode 3),
                                   (''build'', DirNode [(''out.js'', FileNode 4)])])]) ''/p'' 3 0
   = Some [FolderItem ''src'' ''/p/src'' [FileItem ''app.js'' ''/p/src/app.js'' 3]]
   \<and> \<not> startsWith ''app.js'' ''.''
   \<and> ''app.js'' \<notin> set [''node_modules'', ''.git'', ''dist'', ''build'']"
proof -
  have ev: "getFolderStructure_depth codeUnitCompare
      (DirNode [(''.git'', Gone True), (''node_modules'', DirNode [(''express'', DirNode [])]),
                (''src'', DirNode [(''.env'', FileNode 9), (''app.js'', FileNode 3),
                                   (''build'', DirNode [(''out.js'', FileNode 4)])])]) ''/p'' 3 0
   = Some [FolderItem ''src'' ''/p/src'' [FileItem ''app.js'' ''/p/src/app.js'' 3]]"
    by code_simp
  from getFolderStructure_depth_exclusions ev
  have "\<forall>i \<in> set [FolderItem ''src'' ''/p/src'' [FileItem ''app.js'' ''/p/src/app.js'' 3]].
        \<forall>n \<in> set (allNames i). \<not> startsWith n ''.'' \<and> n \<notin> set [''node_modules'', ''.git'', ''dist'', ''build'']"
    by blast
  then have "\<not> startsWith ''app.js'' ''.'' \<and> ''app.js'' \<notin> set [''node_modules'', ''.git'', ''dist'', ''build'']"
    by simp
  with ev show ?thesis by blast
qed

text \<open>
  C3. The claim: a child directory that cannot be read (permission denied, deleted in
  the meantime) appears as a folder with no children, and its siblings are still listed.
  In the depth-limited walk \<^verbatim>\<open>fs.stat\<close> on the child is inside the \<^verbatim>\<open>try\<close> of its
  parent: when the child has vanished since the listing, the whole listing of the parent
  is lost (\<^verbatim>\<open>null\<close>). The folders-only walk lists the same directory as claimed, and so
  does the depth-limited walk when the child is only unreadable.
\<close>

theorem getFolderStructure_depth_vanished_child:
  "getFolderStructure_depth lc
      (DirNode [(''C'', Gone True), (''S'', DirNode []), (''notes.txt'', FileNode 5)]) dirPath 3 0 = None
   \<and> getFolderStructure (DirNode [(''C'', Gone True), (''S'', DirNode []), (''notes.txt'', FileNode 5)])
       = Inr [Folder ''C'' [], Folder ''S'' []]
   \<and> getFolderStructure_depth lc
      (DirNode [(''C'', DeniedDir), (''S'', DirNode []), (''notes.txt'', FileNode 5)]) dirPath 3 0
       = Some (js_sort (compareItems lc)
           [FolderItem ''C'' (posix_join [dirPath, ''C'']) [], FolderItem ''S'' (posix_join [dirPath, ''S'']) [],
            FileItem ''notes.txt'' (posix_join [dirPath, ''notes.txt'']) 5])"
  by (simp add: skipped_def startsWith_def js_sort_def)

section \<open>Base64\<close>


lemma sextets: "list_all (\<lambda>n. dec6 (enc6 n) = Some n \<and> enc6 n \<noteq> CHR ''='') [0..<64]"
  by code_simp

lemma dec6_enc6: "n < 64 \<Longrightarrow> dec6 (enc6 n) = Some n"
  using sextets by (simp add: list_all_iff del: upt_conv_Cons)

lemma enc6_not_pad: "n < 64 \<Longrightarrow> enc6 n \<noteq> CHR ''=''"
  using sextets by (simp add: list_all_iff del: upt_conv_Cons)

lemma byte_bound: "(of_char (c :: char) :: nat) < 256"
  by (metis of_char_mod_256 mod_less_divisor zero_less_numeral)


lemma split_hi_lo:
  fixes hi lo k :: nat
  assumes "lo < k"
  shows "(hi * k + lo) div k = hi" "(hi * k + lo) mod k = lo"
  using assms by simp_all

lemma regroup3:
  fixes x y z :: nat
  assumes "y < 256" "z < 256"
  shows "x div 4 * 4 + (x mod 4 * 16 + y div 16) div 16 = x"
    and "(x mod 4 * 16 + y div 16) mod 16 * 16 + (y mod 16 * 4 + z div 64) div 4 = y"
    and "(y mod 16 * 4 + z div 64) mod 4 * 64 + z mod 64 = z"
proof -
  have ya: "y div 16 < 16" using assms(1) by (simp add: div_less_iff_less_mult)
  have za: "z div 64 < 4" using assms(2) by (simp add: div_less_iff_less_mult)
  show "x div 4 * 4 + (x mod 4 * 16 + y div 16) div 16 = x"
    by (simp add: split_hi_lo(1) [OF ya])
  show "(x mod 4 * 16 + y div 16) mod 16 * 16 + (y mod 16 * 4 + z div 64) div 4 = y"
    using ya by (simp add: split_hi_lo(1) [OF za])
  show "(y mod 16 * 4 + z div 64) mod 4 * 64 + z mod 64 = z"
    using za by simp
qed

lemma regroup_bounds:
  fixes x y z :: nat
  assumes "x < 256" "y < 256" "z < 256"
  shows "x div 4 < 64" "x mod 4 * 16 + y div 16 < 64" "y mod 16 * 4 + z div 64 < 64" "z mod 64 < 64"
    "x mod 4 * 16 < 64" "y mod 16 * 4 < 64"
proof -
  have ya: "y div 16 < 16" using assms(2) by (simp add: div_less_iff_less_mult)
  have za: "z div 64 < 4" using assms(3) by (simp add: div_less_iff_less_mult)
  have xb: "x mod 4 < 4" by simp
  have yb: "y mod 16 < 16" by simp
  show "x div 4 < 64" using assms(1) by (simp add: div_less_iff_less_mult)
  show "x mod 4 * 16 + y div 16 < 64" using ya xb by linarith
  show "y mod 16 * 4 + z div 64 < 64" using za yb by linarith
  show "z mod 64 < 64" by simp
  show "x mod 4 * 16 < 64" using xb by linarith
  show "y mod 16 * 4 < 64" using yb by linarith
qed

lemma regroup_short:
  fixes x y :: nat
  assumes "y < 256"
  shows "x div 4 * 4 + (x mod 4 * 16) div 16 = x"
    and "(x mod 4 * 16 + y div 16) mod 16 * 16 + (y mod 16 * 4) div 4 = y"
proof -
  have ya: "y div 16 < 16" using assms(1) by (simp add: div_less_iff_less_mult)
  show "x div 4 * 4 + (x mod 4 * 16) div 16 = x" by simp
  show "(x mod 4 * 16 + y div 16) mod 16 * 16 + (y mod 16 * 4) div 4 = y"
    using ya by simp
qed

lemma decode_full_group:
  assumes "dec6 c0 = Some s0" "dec6 c1 = Some s1" "dec6 c2 = Some s2" "dec6 c3 = Some s3"
    and "c2 \<noteq> CHR ''=''" "c3 \<noteq> CHR ''=''"
  shows "base64_decode (c0 # c1 # c2 # c3 # rest) =
         map_option (\<lambda>bytes. char_of (s0 * 4 + s1 div 16) # char_of (s1 mod 16 * 16 + s2 div 4) #
                               char_of (s2 mod 4 * 64 + s3) # bytes) (base64_decode rest)"
  using assms by (cases "base64_decode rest") simp_all

lemma decode_two_bytes:
  assumes "dec6 c0 = Some s0" "dec6 c1 = Some s1" "dec6 c2 = Some s2" "c2 \<noteq> CHR ''=''"
  shows "base64_decode [c0, c1, c2, CHR ''=''] =
         Some [char_of (s0 * 4 + s1 div 16), char_of (s1 mod 16 * 16 + s2 div 4)]"
  using assms by simp

lemma decode_one_byte:
  assumes "dec6 c0 = Some s0" "dec6 c1 = Some s1"
  shows "base64_decode [c0, c1, CHR ''='', CHR ''=''] = Some [char_of (s0 * 4 + s1 div 16)]"
  using assms by simp

lemma base64_roundtrip: "base64_decode (base64 bytes) = Some bytes"
proof (induction bytes rule: base64.induct)
  case 1
  then show ?case by simp
next
  case (2 a)
  let ?x = "of_char a :: nat"
  have b: "?x div 4 < 64" "?x mod 4 * 16 < 64"
    using regroup_bounds [OF byte_bound [of a] byte_bound [of a] byte_bound [of a]] by simp_all
  have eq: "?x div 4 * 4 + (?x mod 4 * 16) div 16 = ?x"
    by (rule regroup_short(1) [OF byte_bound [of a]])
  have "base64_decode (base64 [a]) = Some [char_of (?x div 4 * 4 + (?x mod 4 * 16) div 16)]"
    unfolding base64.simps by (rule decode_one_byte [OF dec6_enc6 [OF b(1)] dec6_enc6 [OF b(2)]])
  then show ?case by (simp only: eq char_of_char)
next
  case (3 a b)
  let ?x = "of_char a :: nat" and ?y = "of_char b :: nat"
  have bd: "?x div 4 < 64" "?x mod 4 * 16 + ?y div 16 < 64" "?y mod 16 * 4 < 64"
    using regroup_bounds [OF byte_bound [of a] byte_bound [of b] byte_bound [of b]] by simp_all
  have eq: "?x div 4 * 4 + (?x mod 4 * 16 + ?y div 16) div 16 = ?x"
    "(?x mod 4 * 16 + ?y div 16) mod 16 * 16 + (?y mod 16 * 4) div 4 = ?y"
    by (rule regroup3(1) [OF byte_bound [of b] byte_bound [of b]])
       (rule regroup_short(2) [OF byte_bound [of b]])
  have "base64_decode (base64 [a, b]) =
        Some [char_of (?x div 4 * 4 + (?x mod 4 * 16 + ?y div 16) div 16),
              char_of ((?x mod 4 * 16 + ?y div 16) mod 16 * 16 + (?y mod 16 * 4) div 4)]"
    unfolding base64.simps
    by (rule decode_two_bytes [OF dec6_enc6 [OF bd(1)] dec6_enc6 [OF bd(2)] dec6_enc6 [OF bd(3)]
          enc6_not_pad [OF bd(3)]])
  then show ?case by (simp only: eq char_of_char)
next
  case (4 a b c rest)
  let ?x = "of_char a :: nat" and ?y = "of_char b :: nat" and ?z = "of_char c :: nat"
  have bd: "?x div 4 < 64" "?x mod 4 * 16 + ?y div 16 < 64" "?y mod 16 * 4 + ?z div 64 < 64"
    "?z mod 64 < 64"
    using regroup_bounds [OF byte_bound [of a] byte_bound [of b] byte_bound [of c]] by simp_all
  have eq: "?x div 4 * 4 + (?x mod 4 * 16 + ?y div 16) div 16 = ?x"
    "(?x mod 4 * 16 + ?y div 16) mod 16 * 16 + (?y mod 16 * 4 + ?z div 64) div 4 = ?y"
    "(?y mod 16 * 4 + ?z div 64) mod 4 * 64 + ?z mod 64 = ?z"
    by (rule regroup3 [OF byte_bound [of b] byte_bound [of c]])+
  have "base64_decode (base64 (a # b # c # rest)) =
        map_option (\<lambda>bytes.
            char_of (?x div 4 * 4 + (?x mod 4 * 16 + ?y div 16) div 16) #
            char_of ((?x mod 4 * 16 + ?y div 16) mod 16 * 16 + (?y mod 16 * 4 + ?z div 64) div 4) #
            char_of ((?y mod 16 * 4 + ?z div 64) mod 4 * 64 + ?z mod 64) # bytes)
          (base64_decode (base64 rest))"
    unfolding base64.simps append.simps
    by (rule decode_full_group [OF dec6_enc6 [OF bd(1)] dec6_enc6 [OF bd(2)] dec6_enc6 [OF bd(3)]
          dec6_enc6 [OF bd(4)] enc6_not_pad [OF bd(3)] enc6_not_pad [OF bd(4)]])
  then show ?case by (simp only: eq char_of_char "4.IH" option.map)
qed


section \<open>Reading file content: descriptors and exceptions\<close>


lemma readFileContent_try_metadata:
  "fileSize (fst (readFileContent_try fs p ext fi)) = fileSize fi
   \<and> modified (fst (readFileContent_try fs p ext fi)) = modified fi"
  by (simp add: readFileContent_try_def split: sum.splits)

lemma readFileContent_enhanced_try_metadata:
  "fileSize (fst (readFileContent_enhanced_try h fs p ext fi)) = fileSize fi
   \<and> modified (fst (readFileContent_enhanced_try h fs p ext fi)) = modified fi"
  by (simp add: readFileContent_enhanced_try_def split: sum.splits)

lemma readFileContent_returns:
  assumes "fsStat fs p = Inr stats"
  shows "\<exists>d. readFileContent fs p = Inr d \<and> fileSize d = statSize stats \<and> modified d = statMtime stats"
proof -
  let ?fi = "\<lparr>fileSize = statSize stats, modified = statMtime stats,
              typeName = drop 1 (toLowerCase (extname p)),
              isText = False, isBinary = False, content = [], errorMsg = None, downloadable = None\<rparr>"
  obtain d thrown where t: "readFileContent_try fs p (toLowerCase (extname p)) ?fi = (d, thrown)"
    by (cases "readFileContent_try fs p (toLowerCase (extname p)) ?fi")
  have "fileSize d = statSize stats \<and> modified d = statMtime stats"
    using readFileContent_try_metadata [of fs p "toLowerCase (extname p)" ?fi] t by simp
  then show ?thesis
    using assms t by (cases thrown) (simp_all add: readFileContent_def)
qed

lemma readFileContent_enhanced_returns:
  assumes "fsStat fs p = Inr stats"
  shows "\<exists>d. readFileContent_enhanced h fs p = Inr d \<and> fileSize d = statSize stats \<and> modified d = statMtime stats"
proof -
  let ?fi = "\<lparr>fileSize = statSize stats, modified = statMtime stats,
              typeName = drop 1 (toLowerCase (extname p)),
              isText = False, isBinary = False, content = [], errorMsg = None, downloadable = Some False\<rparr>"
  obtain d thrown where t: "readFileContent_enhanced_try h fs p (toLowerCase (extname p)) ?fi = (d, thrown)"
    by (cases "readFileContent_enhanced_try h fs p (toLowerCase (extname p)) ?fi")
  have "fileSize d = statSize stats \<and> modified d = statMtime stats"
    using readFileContent_enhanced_try_metadata [of h fs p "toLowerCase (extname p)" ?fi] t by simp
  then show ?thesis
    using assms t by (cases thrown) (simp_all add: readFileContent_enhanced_def)
qed

lemma readFileContent_text_failure:
  assumes "fsStat fs p = Inr stats"
    and "toLowerCase (extname p) \<notin> set [''.pdf'', ''.xlsx'', ''.xls'', ''.docx'', ''.doc'', ''.pptx'', ''.ppt'']"
    and "fsReadFileUtf8 fs p = Inl e"
  shows "\<exists>d. readFileContent fs p = Inr d
          \<and> errorMsg d = Some (''Error reading file: '' @ message e)
          \<and> content d =
              ''Unable to read file content. The file may be corrupted or in an unsupp'' @
              ''orted format.''"
  using assms by (simp add: readFileContent_def readFileContent_try_def)

lemma readFileContent_enhanced_text_failure:
  assumes "fsStat fs p = Inr stats"
    and "toLowerCase (extname p) \<notin> set [''.pdf'', ''.xlsx'', ''.xls'', ''.docx'', ''.doc'', ''.pptx'', ''.ppt'']"
    and "fsReadFileUtf8 fs p = Inl e"
  shows "\<exists>d. readFileContent_enhanced h fs p = Inr d
          \<and> errorMsg d = Some (''Error reading file: '' @ message e)
          \<and> content d =
              ''Unable to read file content: '' @
              message e @
              ''\<newline>'' @
              ''\<newline>'' @
              ''The file may be:\<newline>'' @
              ''- Corrupted\<newline>'' @
              ''- Password protected\<newline>'' @
              ''- In an unsupported format\<newline>'' @
              ''- Too large to process''"
  using assms by (simp add: readFileContent_enhanced_def readFileContent_enhanced_try_def)

lemma helper_xlsFE:
  assumes "fsStat fs p = Inr stats"
    and "toLowerCase (extname p) \<in> set [''.xlsx'', ''.xls''] \<and> fsReadFile fs p = Inl e"
  shows "(\<exists>d. readFileContent fs p = Inr d \<and> errorMsg d = None
             \<and> content d =
              ''Error reading Excel file: '' @ message e)"
  using assms
  by (auto simp: readFileContent_def readFileContent_try_def processExcelFile_def
        processDocxFile_def processPptFile_def readFileContent_enhanced_def
        readFileContent_enhanced_try_def processPdfFile_def processExcelFile_enhanced_def
        processDocxFile_enhanced_def processPptFile_enhanced_def)

lemma helper_docxFE:
  assumes "fsStat fs p = Inr stats"
    and "toLowerCase (extname p) = ''.docx'' \<and> fsReadFile fs p = Inl e"
  shows "(\<exists>d. readFileContent fs p = Inr d \<and> errorMsg d = None
             \<and> content d =
              ''Error reading Word document: '' @ message e)"
  using assms
  by (auto simp: readFileContent_def readFileContent_try_def processExcelFile_def
        processDocxFile_def processPptFile_def readFileContent_enhanced_def
        readFileContent_enhanced_try_def processPdfFile_def processExcelFile_enhanced_def
        processDocxFile_enhanced_def processPptFile_enhanced_def)

lemma helper_pptFE:
  assumes "fsStat fs p = Inr stats"
    and "toLowerCase (extname p) \<in> set [''.pptx'', ''.ppt''] \<and> fsReadFile fs p = Inl e"
  shows "(\<exists>d. readFileContent fs p = Inr d \<and> errorMsg d = None
             \<and> content d =
              ''Error reading PowerPoint file: '' @ message e)"
  using assms
  by (auto simp: readFileContent_def readFileContent_try_def processExcelFile_def
        processDocxFile_def processPptFile_def readFileContent_enhanced_def
        readFileContent_enhanced_try_def processPdfFile_def processExcelFile_enhanced_def
        processDocxFile_enhanced_def processPptFile_enhanced_def)

lemma helper_pdfEN:
  assumes "fsStat fs p = Inr stats"
    and "toLowerCase (extname p) = ''.pdf'' \<and> pdfParse h = Some extract \<and> extract p = Inl e"
  shows "(\<exists>d. readFileContent_enhanced h fs p = Inr d \<and> errorMsg d = None
             \<and> content d =
              ''Error processing PDF: '' @
              message e @
              ''\<newline>'' @
              ''\<newline>'' @
              ''The PDF file may be:\<newline>'' @
              ''- Password protected\<newline>'' @
              ''- Corrupted\<newline>'' @
              ''- Using unsupported features'')"
  using assms
  by (auto simp: readFileContent_def readFileContent_try_def processExcelFile_def
        processDocxFile_def processPptFile_def readFileContent_enhanced_def
        readFileContent_enhanced_try_def processPdfFile_def processExcelFile_enhanced_def
        processDocxFile_enhanced_def processPptFile_enhanced_def)

lemma helper_xlsEN:
  assumes "fsStat fs p = Inr stats"
    and "toLowerCase (extname p) \<in> set [''.xlsx'', ''.xls''] \<and> XLSX h = Some extract \<and> extract p = Inl e"
  shows "(\<exists>d. readFileContent_enhanced h fs p = Inr d \<and> errorMsg d = None
             \<and> content d =
              ''Error processing Excel file: '' @
              message e @
              ''\<newline>'' @
              ''\<newline>'' @
              ''The Excel file may be:\<newline>'' @
              ''- Corrupted\<newline>'' @
              ''- Password protected\<newline>'' @
              ''- Using unsupported Excel features'')"
  using assms
  by (auto simp: readFileContent_def readFileContent_try_def processExcelFile_def
        processDocxFile_def processPptFile_def readFileContent_enhanced_def
        readFileContent_enhanced_try_def processPdfFile_def processExcelFile_enhanced_def
        processDocxFile_enhanced_def processPptFile_enhanced_def)

lemma helper_docxEN:
  assumes "fsStat fs p = Inr stats"
    and "toLowerCase (extname p) = ''.docx'' \<and> mammoth h = Some extract \<and> extract p = Inl e"
  shows "(\<exists>d. readFileContent_enhanced h fs p = Inr d \<and> errorMsg d = None
             \<and> content d =
              ''Error processing Word document: '' @
              message e @
              ''\<newline>'' @
              ''\<newline>'' @
              ''The document may be:\<newline>'' @
              ''- Corrupted\<newline>'' @
              ''- Password protected\<newline>'' @
              ''- Using unsupported Word features'')"
  using assms
  by (auto simp: readFileContent_def readFileContent_try_def processExcelFile_def
        processDocxFile_def processPptFile_def readFileContent_enhanced_def
        readFileContent_enhanced_try_def processPdfFile_def processExcelFile_enhanced_def
        processDocxFile_enhanced_def processPptFile_enhanced_def)

lemma helper_pptEN:
  assumes "fsStat fs p = Inr stats"
    and "toLowerCase (extname p) \<in> set [''.pptx'', ''.ppt''] \<and> fsReadFile fs p = Inl e"
  shows "(\<exists>d. readFileContent_enhanced h fs p = Inr d \<and> errorMsg d = None
             \<and> content d =
              ''Error accessing PowerPoint file: '' @
              message e)"
  using assms
  by (auto simp: readFileContent_def readFileContent_try_def processExcelFile_def
        processDocxFile_def processPptFile_def readFileContent_enhanced_def
        readFileContent_enhanced_try_def processPdfFile_def processExcelFile_enhanced_def
        processDocxFile_enhanced_def processPptFile_enhanced_def)

text \<open>
  C4, as stated: every exception raised while the content is produced ends in the
  \<^verbatim>\<open>error\<close> field of the descriptor, and for every path the descriptor carries size and
  time. An unreadable spreadsheet is reported in \<^verbatim>\<open>content\<close> by \<^verbatim>\<open>processExcelFile\<close>,
  with \<^verbatim>\<open>error\<close> left \<^verbatim>\<open>null\<close>; and when \<^verbatim>\<open>fs.stat\<close> throws there is no descriptor.
\<close>

theorem readFileContent_helper_keeps_error_null:
  "readFileContent refusedFiles ''/root/book.xlsx''
     = Inr \<lparr>fileSize = 3, modified = 1700000000000, typeName = ''xlsx'', isText = False,
            isBinary = True, content = ''Error reading Excel file: EACCES'', errorMsg = None,
            downloadable = None\<rparr>
   \<and> readFileContent missingFiles ''/root/gone.txt'' = Inl (Error ''ENOENT'')"
proof -
  have ext: "toLowerCase (extname ''/root/book.xlsx'') = ''.xlsx''" by code_simp
  show ?thesis
    by (simp add: readFileContent_def readFileContent_try_def processExcelFile_def ext
          refusedFiles_def missingFiles_def)
qed

text \<open>
  C4, amended: whenever \<^verbatim>\<open>fs.stat\<close> succeeds, both versions of \<^verbatim>\<open>readFileContent\<close> return
  a descriptor whose size and time are those of \<^verbatim>\<open>fs.stat\<close>, whatever branch runs or
  fails. An exception of the text read (the default branch) ends in \<^verbatim>\<open>error\<close>, with the
  diagnostic placeholder as \<^verbatim>\<open>content\<close>. An exception inside a helper is caught by the
  helper, whose message becomes the \<^verbatim>\<open>content\<close> while \<^verbatim>\<open>error\<close> stays \<^verbatim>\<open>null\<close>: the
  file read of \<^verbatim>\<open>processExcelFile\<close>, \<^verbatim>\<open>processDocxFile\<close> and \<^verbatim>\<open>processPptFile\<close> in
  file_explorer_app.js; the library work of \<^verbatim>\<open>processPdfFile\<close>, \<^verbatim>\<open>processExcelFile\<close> and
  \<^verbatim>\<open>processDocxFile\<close> and the file read of \<^verbatim>\<open>processPptFile\<close> in enhanced_server.js. An
  exception of \<^verbatim>\<open>fs.stat\<close> leaves \<^verbatim>\<open>readFileContent\<close> and the handler answers 500.
\<close>

theorem readFileContent_catches:
  "(fsStat fs p = Inr stats \<longrightarrow>
      (\<exists>d. readFileContent fs p = Inr d \<and> fileSize d = statSize stats \<and> modified d = statMtime stats)
    \<and> (\<exists>d. readFileContent_enhanced h fs p = Inr d \<and> fileSize d = statSize stats
             \<and> modified d = statMtime stats)
    \<and> (toLowerCase (extname p) \<notin> set [''.pdf'', ''.xlsx'', ''.xls'', ''.docx'', ''.doc'', ''.pptx'', ''.ppt'']
         \<and> fsReadFileUtf8 fs p = Inl e \<longrightarrow>
          (\<exists>d. readFileContent fs p = Inr d
             \<and> errorMsg d = Some (''Error reading file: '' @ message e)
             \<and> content d =
              ''Unable to read file content. The file may be corrupted or in an unsupp'' @
              ''orted format.'')
        \<and> (\<exists>d. readFileContent_enhanced h fs p = Inr d
             \<and> errorMsg d = Some (''Error reading file: '' @ message e)
             \<and> content d =
              ''Unable to read file content: '' @
              message e @
              ''\<newline>'' @
              ''\<newline>'' @
              ''The file may be:\<newline>'' @
              ''- Corrupted\<newline>'' @
              ''- Password protected\<newline>'' @
              ''- In an unsupported format\<newline>'' @
              ''- Too large to process''))
    \<and> (toLowerCase (extname p) \<in> set [''.xlsx'', ''.xls''] \<and> fsReadFile fs p = Inl e \<longrightarrow>
          (\<exists>d. readFileContent fs p = Inr d \<and> errorMsg d = None
             \<and> content d =
              ''Error reading Excel file: '' @ message e))
    \<and> (toLowerCase (extname p) = ''.docx'' \<and> fsReadFile fs p = Inl e \<longrightarrow>
          (\<exists>d. readFileContent fs p = Inr d \<and> errorMsg d = None
             \<and> content d =
              ''Error reading Word document: '' @ message e))
    \<and> (toLowerCase (extname p) \<in> set [''.pptx'', ''.ppt''] \<and> fsReadFile fs p = Inl e \<longrightarrow>
          (\<exists>d. readFileContent fs p = Inr d \<and> errorMsg d = None
             \<and> content d =
              ''Error reading PowerPoint file: '' @ message e))
    \<and> (toLowerCase (extname p) = ''.pdf'' \<and> pdfParse h = Some extract \<and> extract p = Inl e \<longrightarrow>
          (\<exists>d. readFileContent_enhanced h fs p = Inr d \<and> errorMsg d = None
             \<and> content d =
              ''Error processing PDF: '' @
              message e @
              ''\<newline>'' @
              ''\<newline>'' @
              ''The PDF file may be:\<newline>'' @
              ''- Password protected\<newline>'' @
              ''- Corrupted\<newline>'' @
              ''- Using unsupported features''))
    \<and> (toLowerCase (extname p) \<in> set [''.xlsx'', ''.xls''] \<and> XLSX h = Some extract \<and> extract p = Inl e \<longrightarrow>
          (\<exists>d. readFileContent_enhanced h fs p = Inr d \<and> errorMsg d = None
             \<and> content d =
              ''Error processing Excel file: '' @
              message e @
              ''\<newline>'' @
              ''\<newline>'' @
              ''The Excel file may be:\<newline>'' @
              ''- Corrupted\<newline>'' @
              ''- Password protected\<newline>'' @
              ''- Using unsupported Excel features''))
    \<and> (toLowerCase (extname p) = ''.docx'' \<and> mammoth h = Some extract \<and> extract p = Inl e \<longrightarrow>
          (\<exists>d. readFileContent_enhanced h fs p = Inr d \<and> errorMsg d = None
             \<and> content d =
              ''Error processing Word document: '' @
              message e @
              ''\<newline>'' @
              ''\<newline>'' @
              ''The document may be:\<newline>'' @
              ''- Corrupted\<newline>'' @
              ''- Password protected\<newline>'' @
              ''- Using unsupported Word features''))
    \<and> (toLowerCase (extname p) \<in> set [''.pptx'', ''.ppt''] \<and> fsReadFile fs p = Inl e \<longrightarrow>
          (\<exists>d. readFileContent_enhanced h fs p = Inr d \<and> errorMsg d = None
             \<and> content d =
              ''Error accessing PowerPoint file: '' @
              message e)))
   \<and> (fsStat fs p = Inl e \<longrightarrow>
        readFileContent fs p = Inl e \<and> readFileContent_enhanced h fs p = Inl e
        \<and> (root \<noteq> [] \<and> securityCheck cwd root q = Inr p \<and> fsAccess fs p \<longrightarrow>
             apiFile fs cwd (Some root) q = Inl (500, ''Unable to read file: '' @ message e)))"
proof -
  have ok: "(\<exists>d. readFileContent fs p = Inr d \<and> fileSize d = statSize stats \<and> modified d = statMtime stats)
    \<and> (\<exists>d. readFileContent_enhanced h fs p = Inr d \<and> fileSize d = statSize stats
             \<and> modified d = statMtime stats)"
    if "fsStat fs p = Inr stats"
    using readFileContent_returns [OF that] readFileContent_enhanced_returns [OF that] by blast
  have textCase: "(\<exists>d. readFileContent fs p = Inr d
             \<and> errorMsg d = Some (''Error reading file: '' @ message e)
             \<and> content d =
              ''Unable to read file content. The file may be corrupted or in an unsupp'' @
              ''orted format.'')
        \<and> (\<exists>d. readFileContent_enhanced h fs p = Inr d
             \<and> errorMsg d = Some (''Error reading file: '' @ message e)
             \<and> content d =
              ''Unable to read file content: '' @
              message e @
              ''\<newline>'' @
              ''\<newline>'' @
              ''The file may be:\<newline>'' @
              ''- Corrupted\<newline>'' @
              ''- Password protected\<newline>'' @
              ''- In an unsupported format\<newline>'' @
              ''- Too large to process'')"
    if "fsStat fs p = Inr stats"
      "toLowerCase (extname p) \<notin> set [''.pdf'', ''.xlsx'', ''.xls'', ''.docx'', ''.doc'', ''.pptx'', ''.ppt'']"
      "fsReadFileUtf8 fs p = Inl e"
    using readFileContent_text_failure [OF that] readFileContent_enhanced_text_failure [OF that]
    by blast
  have thrown: "readFileContent fs p = Inl e \<and> readFileContent_enhanced h fs p = Inl e
        \<and> (root \<noteq> [] \<and> securityCheck cwd root q = Inr p \<and> fsAccess fs p \<longrightarrow>
             apiFile fs cwd (Some root) q = Inl (500, ''Unable to read file: '' @ message e))"
    if "fsStat fs p = Inl e"
    using that by (simp add: readFileContent_def readFileContent_enhanced_def apiFile_def)
  have xlsFE: "(\<exists>d. readFileContent fs p = Inr d \<and> errorMsg d = None
             \<and> content d =
              ''Error reading Excel file: '' @ message e)"
    if "fsStat fs p = Inr stats" "toLowerCase (extname p) \<in> set [''.xlsx'', ''.xls''] \<and> fsReadFile fs p = Inl e"
    using that by (rule helper_xlsFE)
  have docxFE: "(\<exists>d. readFileContent fs p = Inr d \<and> errorMsg d = None
             \<and> content d =
              ''Error reading Word document: '' @ message e)"
    if "fsStat fs p = Inr stats" "toLowerCase (extname p) = ''.docx'' \<and> fsReadFile fs p = Inl e"
    using that by (rule helper_docxFE)
  have pptFE: "(\<exists>d. readFileContent fs p = Inr d \<and> errorMsg d = None
             \<and> content d =
              ''Error reading PowerPoint file: '' @ message e)"
    if "fsStat fs p = Inr stats" "toLowerCase (extname p) \<in> set [''.pptx'', ''.ppt''] \<and> fsReadFile fs p = Inl e"
    using that by (rule helper_pptFE)
  have pdfEN: "(\<exists>d. readFileContent_enhanced h fs p = Inr d \<and> errorMsg d = None
             \<and> content d =
              ''Error processing PDF: '' @
              message e @
              ''\<newline>'' @
              ''\<newline>'' @
              ''The PDF file may be:\<newline>'' @
              ''- Password protected\<newline>'' @
              ''- Corrupted\<newline>'' @
              ''- Using unsupported features'')"
    if "fsStat fs p = Inr stats" "toLowerCase (extname p) = ''.pdf'' \<and> pdfParse h = Some extract \<and> extract p = Inl e"
    using that by (rule helper_pdfEN)
  have xlsEN: "(\<exists>d. readFileContent_enhanced h fs p = Inr d \<and> errorMsg d = None
             \<and> content d =
              ''Error processing Excel file: '' @
              message e @
              ''\<newline>'' @
              ''\<newline>'' @
              ''The Excel file may be:\<newline>'' @
              ''- Corrupted\<newline>'' @
              ''- Password protected\<newline>'' @
              ''- Using unsupported Excel features'')"
    if "fsStat fs p = Inr stats" "toLowerCase (extname p) \<in> set [''.xlsx'', ''.xls''] \<and> XLSX h = Some extract \<and> extract p = Inl e"
    using that by (rule helper_xlsEN)
  have docxEN: "(\<exists>d. readFileContent_enhanced h fs p = Inr d \<and> errorMsg d = None
             \<and> content d =
              ''Error processing Word document: '' @
              message e @
              ''\<newline>'' @
              ''\<newline>'' @
              ''The document may be:\<newline>'' @
              ''- Corrupted\<newline>'' @
              ''- Password protected\<newline>'' @
              ''- Using unsupported Word features'')"
    if "fsStat fs p = Inr stats" "toLowerCase (extname p) = ''.docx'' \<and> mammoth h = Some extract \<and> extract p = Inl e"
    using that by (rule helper_docxEN)
  have pptEN: "(\<exists>d. readFileContent_enhanced h fs p = Inr d \<and> errorMsg d = None
             \<and> content d =
              ''Error accessing PowerPoint file: '' @
              message e)"
    if "fsStat fs p = Inr stats" "toLowerCase (extname p) \<in> set [''.pptx'', ''.ppt''] \<and> fsReadFile fs p = Inl e"
    using that by (rule helper_pptEN)
  from ok textCase thrown xlsFE docxFE pptFE pdfEN xlsEN docxEN pptEN show ?thesis by blast
qed

theorem readFileContent_catches_witness:
  "fsStat refusedFiles ''/root/notes.txt'' = Inr (FileStats 3 1700000000000)
   \<and> fsReadFileUtf8 refusedFiles ''/root/notes.txt'' = Inl (Error ''EACCES'')
   \<and> errorMsg (projr (readFileContent refusedFiles ''/root/notes.txt'')) = Some ''Error reading file: EACCES''
   \<and> fileSize (projr (readFileContent refusedFiles ''/root/notes.txt'')) = 3
   \<and> errorMsg (projr (readFileContent_enhanced failingHost smallFiles ''/root/scan.pdf'')) = None
   \<and> content (projr (readFileContent_enhanced failingHost smallFiles ''/root/scan.pdf'')) =
              ''Error processing PDF: '' @
              ''bad XRef entry'' @
              ''\<newline>'' @
              ''\<newline>'' @
              ''The PDF file may be:\<newline>'' @
              ''- Password protected\<newline>'' @
              ''- Corrupted\<newline>'' @
              ''- Using unsupported features''
   \<and> fsStat vanishingFiles ''/root/gone.txt'' = Inl (Error ''ENOENT'')
   \<and> fsAccess vanishingFiles ''/root/gone.txt''
   \<and> apiFile vanishingFiles ''/'' (Some ''/root'') ''gone.txt''
       = Inl (500, ''Unable to read file: ENOENT'')"
proof -
  have st: "fsStat refusedFiles ''/root/notes.txt'' = Inr (FileStats 3 1700000000000)"
    by (simp add: refusedFiles_def)
  have rd: "fsReadFileUtf8 refusedFiles ''/root/notes.txt'' = Inl (Error ''EACCES'')"
    by (simp add: refusedFiles_def)
  have ext: "toLowerCase (extname ''/root/notes.txt'') \<notin> set [''.pdf'', ''.xlsx'', ''.xls'', ''.docx'', ''.doc'', ''.pptx'', ''.ppt'']"
    by code_simp
  have st2: "fsStat smallFiles ''/root/scan.pdf'' = Inr (FileStats 3 1700000000000)"
    by (simp add: smallFiles_def)
  have ext2: "toLowerCase (extname ''/root/scan.pdf'') = ''.pdf''" by code_simp
  have lib: "pdfParse failingHost = Some (\<lambda>p. Inl (Error ''bad XRef entry''))"
    by (simp add: failingHost_def)
  have thr: "(\<lambda>p. Inl (Error ''bad XRef entry'') :: exn + string) ''/root/scan.pdf'' = Inl (Error ''bad XRef entry'')"
    by simp
  have ms: "fsStat vanishingFiles ''/root/gone.txt'' = Inl (Error ''ENOENT'')"
    by (simp add: vanishingFiles_def)
  have ac: "fsAccess vanishingFiles ''/root/gone.txt''" by (simp add: vanishingFiles_def)
  have ne: "''/root'' \<noteq> []" by simp
  have sc: "securityCheck ''/'' ''/root'' ''gone.txt'' = Inr ''/root/gone.txt''" by code_simp
  note i1 = readFileContent_catches [of refusedFiles "''/root/notes.txt''" "FileStats 3 1700000000000"
      plainHost "Error ''EACCES''"]
  note ok1 = i1 [THEN conjunct1, THEN mp, OF st]
  from ok1 [THEN conjunct2, THEN conjunct2, THEN conjunct1, THEN mp, OF conjI [OF ext rd], THEN conjunct1]
  obtain d where "readFileContent refusedFiles ''/root/notes.txt'' = Inr d"
    "errorMsg d = Some (''Error reading file: '' @ message (Error ''EACCES''))"
    by (elim exE conjE) (rule that)
  then have 1: "errorMsg (projr (readFileContent refusedFiles ''/root/notes.txt'')) = Some ''Error reading file: EACCES''"
    by simp
  from ok1 [THEN conjunct1]
  obtain d' where "readFileContent refusedFiles ''/root/notes.txt'' = Inr d'"
    "fileSize d' = statSize (FileStats 3 1700000000000)"
    by (elim exE conjE) (rule that)
  then have 2: "fileSize (projr (readFileContent refusedFiles ''/root/notes.txt'')) = 3"
    by simp
  note i2 = readFileContent_catches [of smallFiles "''/root/scan.pdf''" "FileStats 3 1700000000000"
      failingHost "Error ''bad XRef entry''" "\<lambda>p. Inl (Error ''bad XRef entry'')"]
  note ok2 = i2 [THEN conjunct1, THEN mp, OF st2]
  from ok2 [THEN conjunct2, THEN conjunct2, THEN conjunct2, THEN conjunct2, THEN conjunct2,
            THEN conjunct2, THEN conjunct1, THEN mp, OF conjI [OF ext2 conjI [OF lib thr]]]
  obtain d2 where d2: "readFileContent_enhanced failingHost smallFiles ''/root/scan.pdf'' = Inr d2"
    "errorMsg d2 = None"
    "content d2 =
              ''Error processing PDF: '' @
              message (Error ''bad XRef entry'') @
              ''\<newline>'' @
              ''\<newline>'' @
              ''The PDF file may be:\<newline>'' @
              ''- Password protected\<newline>'' @
              ''- Corrupted\<newline>'' @
              ''- Using unsupported features''"
    by (elim exE conjE) (rule that)
  have 3: "errorMsg (projr (readFileContent_enhanced failingHost smallFiles ''/root/scan.pdf'')) = None"
    using d2(1,2) by simp
  have 4: "content (projr (readFileContent_enhanced failingHost smallFiles ''/root/scan.pdf'')) =
              ''Error processing PDF: '' @
              ''bad XRef entry'' @
              ''\<newline>'' @
              ''\<newline>'' @
              ''The PDF file may be:\<newline>'' @
              ''- Password protected\<newline>'' @
              ''- Corrupted\<newline>'' @
              ''- Using unsupported features''"
    using d2(1,3) by simp
  note i3 = readFileContent_catches [of vanishingFiles "''/root/gone.txt''" _ plainHost
      "Error ''ENOENT''" _ "''/root''" "''/''" "''gone.txt''"]
  from i3 [THEN conjunct2, THEN mp, OF ms, THEN conjunct2, THEN conjunct2, THEN mp,
           OF conjI [OF ne conjI [OF sc ac]]]
  have 5: "apiFile vanishingFiles ''/'' (Some ''/root'') ''gone.txt''
       = Inl (500, ''Unable to read file: ENOENT'')"
    by simp
  show ?thesis
    by (intro conjI) (rule st rd 1 2 3 4 ms ac 5)+
qed

text \<open>
  C2, as stated: for every office or PDF file without its extractor the content is a
  fixed placeholder. For a presentation, which has no extractor at all, enhanced_server.js
  builds the text from the file: two presentations get two different contents.
\<close>

theorem pptx_content_depends_on_file:
  "\<not> isl (readFileContent_enhanced plainHost smallFiles ''/root/a.pptx'')
   \<and> \<not> isl (readFileContent_enhanced plainHost smallFiles ''/root/b.pptx'')
   \<and> content (projr (readFileContent_enhanced plainHost smallFiles ''/root/a.pptx''))
     \<noteq> content (projr (readFileContent_enhanced plainHost smallFiles ''/root/b.pptx''))"
proof -
  have ext: "toLowerCase (extname ''/root/a.pptx'') = ''.pptx''"
    "toLowerCase (extname ''/root/b.pptx'') = ''.pptx''"
    by code_simp+
  have base: "basename ''/root/a.pptx'' = ''a.pptx''" "basename ''/root/b.pptx'' = ''b.pptx''"
    by code_simp+
  show ?thesis
    by (simp add: readFileContent_enhanced_def readFileContent_enhanced_try_def
          processPptFile_enhanced_def ext base smallFiles_def plainHost_def)
qed

text \<open>
  C2, amended: whenever \<^verbatim>\<open>fs.stat\<close> succeeds on a file of the office and PDF group,
  \<^verbatim>\<open>readFileContent\<close> of enhanced_server.js returns a descriptor (it does not throw) with
  \<^verbatim>\<open>downloadable = true\<close> and no error; its content is a fixed text naming the format and
  saying that the file is available for download for \<^verbatim>\<open>.pdf\<close>, \<^verbatim>\<open>.xlsx\<close>, \<^verbatim>\<open>.xls\<close> and
  \<^verbatim>\<open>.docx\<close> without their library and for \<^verbatim>\<open>.doc\<close> always, and the text that
  \<^verbatim>\<open>processPptFile\<close> builds from the file for \<^verbatim>\<open>.pptx\<close> and \<^verbatim>\<open>.ppt\<close>. In
  file_explorer_app.js the descriptor is returned as well, with a fixed text for \<^verbatim>\<open>.pdf\<close>
  (and \<^verbatim>\<open>downloadable = true\<close>) and for \<^verbatim>\<open>.doc\<close>.
\<close>

theorem office_files_get_placeholders:
  assumes "fsStat fs p = Inr stats"
    and "toLowerCase (extname p) = ext"
    and "ext \<in> set [''.pdf'', ''.xlsx'', ''.xls'', ''.docx'', ''.doc'', ''.pptx'', ''.ppt'']"
  shows "(\<exists>d. readFileContent_enhanced h fs p = Inr d
          \<and> downloadable d = Some True \<and> errorMsg d = None
          \<and> (ext = ''.pdf'' \<and> pdfParse h = None \<longrightarrow>
                content d =
              ''PDF Processing Unavailable\<newline>'' @
              ''\<newline>'' @
              ''To enable PDF text extraction, install the pdf-parse library:\<newline>'' @
              ''npm install pdf-parse\<newline>'' @
              ''\<newline>'' @
              ''The file is available for download.'')
          \<and> ((ext = ''.xlsx'' \<or> ext = ''.xls'') \<and> XLSX h = None \<longrightarrow>
                content d =
              ''Excel Processing Unavailable\<newline>'' @
              ''\<newline>'' @
              ''To enable Excel file reading, install the xlsx library:\<newline>'' @
              ''npm install xlsx\<newline>'' @
              ''\<newline>'' @
              ''The file is available for download.'')
          \<and> (ext = ''.docx'' \<and> mammoth h = None \<longrightarrow>
                content d =
              ''Word Document Processing Unavailable\<newline>'' @
              ''\<newline>'' @
              ''To enable DOCX text extraction, install the mammoth library:\<newline>'' @
              ''npm install mammoth\<newline>'' @
              ''\<newline>'' @
              ''The file is available for download.'')
          \<and> (ext = ''.doc'' \<longrightarrow>
                content d =
              ''Legacy DOC Format\<newline>'' @
              ''\<newline>'' @
              ''Legacy .DOC files are not supported for text extraction.\<newline>'' @
              ''Please convert to .DOCX format or use Microsoft Word.\<newline>'' @
              ''\<newline>'' @
              ''The file is available for download.'')
          \<and> (ext = ''.pptx'' \<or> ext = ''.ppt'' \<longrightarrow>
                content d = processPptFile_enhanced h fs p))
       \<and> (\<exists>d. readFileContent fs p = Inr d \<and> errorMsg d = None
          \<and> (ext = ''.pdf'' \<longrightarrow>
                downloadable d = Some True \<and>
                content d =
              ''PDF files require a PDF viewer. The file is available for download but'' @
              '' cannot be displayed as text in this interface.'')
          \<and> (ext = ''.doc'' \<longrightarrow>
                content d =
              ''Legacy DOC files require Microsoft Word or a compatible application. P'' @
              ''lease convert to DOCX format for text extraction.''))"
proof -
  have enhanced: "readFileContent_enhanced h fs p =
      Inr (fst (readFileContent_enhanced_try h fs p ext
              \<lparr>fileSize = statSize stats, modified = statMtime stats, typeName = drop 1 ext,
               isText = False, isBinary = False, content = [], errorMsg = None,
               downloadable = Some False\<rparr>))"
    using assms by (auto simp: readFileContent_enhanced_def readFileContent_enhanced_try_def)
  have plain: "readFileContent fs p =
      Inr (fst (readFileContent_try fs p ext
              \<lparr>fileSize = statSize stats, modified = statMtime stats, typeName = drop 1 ext,
               isText = False, isBinary = False, content = [], errorMsg = None,
               downloadable = None\<rparr>))"
    using assms by (auto simp: readFileContent_def readFileContent_try_def)
  show ?thesis
    unfolding enhanced plain
    using assms(3) by (auto simp: readFileContent_enhanced_try_def readFileContent_try_def)
qed

theorem office_files_get_placeholders_witness:
  "fsStat smallFiles ''/root/Report.PDF'' = Inr (FileStats 3 1700000000000)
   \<and> toLowerCase (extname ''/root/Report.PDF'') = ''.pdf''
   \<and> pdfParse plainHost = None
   \<and> downloadable (projr (readFileContent_enhanced plainHost smallFiles ''/root/Report.PDF'')) = Some True
   \<and> take 26 (content (projr (readFileContent_enhanced plainHost smallFiles ''/root/Report.PDF'')))
       = ''PDF Processing Unavailable''"
proof -
  have st: "fsStat smallFiles ''/root/Report.PDF'' = Inr (FileStats 3 1700000000000)"
    by (simp add: smallFiles_def)
  have ext: "toLowerCase (extname ''/root/Report.PDF'') = ''.pdf''" by code_simp
  have grp: "''.pdf'' \<in> set [''.pdf'', ''.xlsx'', ''.xls'', ''.docx'', ''.doc'', ''.pptx'', ''.ppt'']"
    by simp
  have lib: "pdfParse plainHost = None" by (simp add: plainHost_def)
  note inst = office_files_get_placeholders [OF st ext grp, of plainHost, THEN conjunct1]
  then obtain d where d: "readFileContent_enhanced plainHost smallFiles ''/root/Report.PDF'' = Inr d"
    and dl: "downloadable d = Some True"
    and pdf: "''.pdf'' = ''.pdf'' \<and> pdfParse plainHost = None \<longrightarrow>
                content d =
              ''PDF Processing Unavailable\<newline>'' @
              ''\<newline>'' @
              ''To enable PDF text extraction, install the pdf-parse library:\<newline>'' @
              ''npm install pdf-parse\<newline>'' @
              ''\<newline>'' @
              ''The file is available for download.''"
    by (elim exE conjE) (rule that)
  have "take 26 (content d) = ''PDF Processing Unavailable''"
    using pdf lib by simp
  then show ?thesis using st ext lib d dl by simp
qed


section \<open>Images in the simple explorer\<close>

text \<open>
  C8. For a \<^verbatim>\<open>.png\<close> or \<^verbatim>\<open>.jpg\<close> file the simple explorer reads the bytes of the file
  and answers with \<^verbatim>\<open>isImage = true\<close> and the content \<^verbatim>\<open>data:image/png;base64,\<close> (or
  \<^verbatim>\<open>data:image/jpeg;base64,\<close>) followed by the base64 text of the bytes; decoding that
  text gives the bytes back.
\<close>

theorem apiFile_simple_image:
  assumes "root \<noteq> []"
    and "securityCheck cwd root q = Inr fullPath"
    and "fsStat fs fullPath = Inr stats"
    and "fsReadFile fs fullPath = Inr buffer"
    and "toLowerCase (extname fullPath) = ext"
    and "ext = ''.png'' \<or> ext = ''.jpg''"
  shows "\<exists>d. apiFile_simple h fs cwd (Some root) q = Inr d
          \<and> descIsImage d
          \<and> descContent d =
               (if ext = ''.png'' then ''data:image/png;base64,'' else ''data:image/jpeg;base64,'')
               @ base64 buffer
          \<and> base64_decode (drop (length (if ext = ''.png'' then ''data:image/png;base64,''
                                             else ''data:image/jpeg;base64,''))
                               (descContent d)) = Some buffer"
  using assms base64_roundtrip [of buffer]
  by (auto simp: apiFile_simple_def Let_def)

theorem apiFile_simple_image_witness:
  "securityCheck ''/'' ''/root'' ''pics/a.PNG'' = Inr ''/root/pics/a.PNG''
   \<and> toLowerCase (extname ''/root/pics/a.PNG'') = ''.png''
   \<and> fsReadFile smallFiles ''/root/pics/a.PNG'' = Inr ''Man''
   \<and> descIsImage (projr (apiFile_simple plainHost smallFiles ''/'' (Some ''/root'') ''pics/a.PNG''))
   \<and> descContent (projr (apiFile_simple plainHost smallFiles ''/'' (Some ''/root'') ''pics/a.PNG''))
       = ''data:image/png;base64,TWFu''
   \<and> base64_decode ''TWFu'' = Some ''Man''"
proof -
  have ne: "''/root'' \<noteq> []" by simp
  have sc: "securityCheck ''/'' ''/root'' ''pics/a.PNG'' = Inr ''/root/pics/a.PNG''" by code_simp
  have st: "fsStat smallFiles ''/root/pics/a.PNG'' = Inr (FileStats 3 1700000000000)"
    by (simp add: smallFiles_def)
  have rd: "fsReadFile smallFiles ''/root/pics/a.PNG'' = Inr ''Man''"
    by (simp add: smallFiles_def)
  have ext: "toLowerCase (extname ''/root/pics/a.PNG'') = ''.png''" by code_simp
  have b: "base64 ''Man'' = ''TWFu''" by code_simp
  have "''.png'' = ''.png'' \<or> ''.png'' = ''.jpg''" by simp
  from apiFile_simple_image [OF ne sc st rd ext this, of plainHost]
  have "\<exists>d. apiFile_simple plainHost smallFiles ''/'' (Some ''/root'') ''pics/a.PNG'' = Inr d
          \<and> descIsImage d
          \<and> descContent d = ''data:image/png;base64,'' @ base64 ''Man''
          \<and> base64_decode (drop (length ''data:image/png;base64,'') (descContent d)) = Some ''Man''"
    by (simp only: simp_thms if_True)
  then have "\<exists>d. apiFile_simple plainHost smallFiles ''/'' (Some ''/root'') ''pics/a.PNG'' = Inr d
          \<and> descIsImage d
          \<and> descContent d = ''data:image/png;base64,'' @ ''TWFu''
          \<and> base64_decode (drop (length ''data:image/png;base64,'') (descContent d)) = Some ''Man''"
    by (simp only: b)
  then have "descIsImage (projr (apiFile_simple plainHost smallFiles ''/'' (Some ''/root'') ''pics/a.PNG''))
     \<and> descContent (projr (apiFile_simple plainHost smallFiles ''/'' (Some ''/root'') ''pics/a.PNG''))
         = ''data:image/png;base64,TWFu''
     \<and> base64_decode ''TWFu'' = Some ''Man''"
    by (auto simp del: base64_decode.simps)
  then show ?thesis using sc ext rd by blast
qed
end
